theory Spec2Isabelle
  imports Complex_Main "HOL-Library.Multiset" "HOL-Library.Char_ord" "HOL-Library.List_Lexorder"
    "HOL-Library.Product_Lexorder"
begin

section \<open>The trip table\<close>

text \<open>
  Both dashboards (\<^verbatim>\<open>bike_dashboard_final_fixed.py\<close> and
  \<^verbatim>\<open>bike_dashboard_simple_csv_cleaned_Part_2.py\<close>) read one CSV file with
  \<^verbatim>\<open>pd.read_csv\<close> and compute every view with pandas calls. A table is the list of
  its rows, a row is a record of its cells, and a missing cell (pandas' NaN, NaT) is
  \<open>None\<close>. The two timestamp columns hold text in the table as read and timestamps
  after \<^verbatim>\<open>pd.to_datetime\<close>, so the row type is polymorphic in their cell type.
  Numbers that pandas holds as float64 are exact rationals here: rounding is not modelled.
\<close>

record 't trip =
  ride_id :: "string option"
  rideable_type :: "string option"
  started_at :: 't
  ended_at :: 't
  start_station_name :: "string option"
  end_station_name :: "string option"
  start_lat :: "rat option"
  start_lng :: "rat option"
  end_lat :: "rat option"
  end_lng :: "rat option"
  member_casual :: "string option"

text \<open>
  A timestamp is the number of nanoseconds since the epoch (datetime64[ns]); a date is
  the number of the day since the epoch.
\<close>

type_synonym timestamp = int
type_synonym day = int

text \<open>A row of \<^verbatim>\<open>df_temp\<close>: the converted row and the derived columns.\<close>

record timed = "timestamp option trip" +
  ride_duration_min :: "rat option"

record dated = timed +
  date :: "day option"

type_synonym raw_table = "string option trip list"

datatype exn = FileNotFoundError | ParseError | ValueError | TypeError

section \<open>Duration derivation\<close>

text \<open>
  \<^verbatim>\<open>pd.to_datetime(column)\<close> with its default \<^verbatim>\<open>errors='raise'\<close>: a missing cell
  becomes NaT, a text that the parser rejects raises (pandas raises a ValueError; it is
  the ParseError of the specification). The parser of one cell is a parameter \<open>parse\<close>:
  which texts are timestamps, and in which format, is left to pandas.
\<close>

fun to_datetime :: "(string \<Rightarrow> timestamp option) \<Rightarrow> string option list \<Rightarrow> exn + timestamp option list" where
  "to_datetime parse [] = Inr []"
| "to_datetime parse (None # cs) =
     (case to_datetime parse cs of Inl e \<Rightarrow> Inl e | Inr ts \<Rightarrow> Inr (None # ts))"
| "to_datetime parse (Some s # cs) =
     (case parse s of
        None \<Rightarrow> Inl ParseError
      | Some t \<Rightarrow> (case to_datetime parse cs of Inl e \<Rightarrow> Inl e | Inr ts \<Rightarrow> Inr (Some t # ts)))"

text \<open>\<^verbatim>\<open>.dt.date\<close>: the calendar day of a timestamp, NaT for NaT.\<close>

definition dt_date :: "timestamp option \<Rightarrow> day option" where
  "dt_date t = map_option (\<lambda>ns. ns div 86400000000000) t"

text \<open>\<^verbatim>\<open>ended_at - started_at\<close>: a Timedelta in nanoseconds, NaT when either is NaT.\<close>

definition sub_ts :: "timestamp option \<Rightarrow> timestamp option \<Rightarrow> int option" where
  "sub_ts e s = (case e of None \<Rightarrow> None | Some a \<Rightarrow> (case s of None \<Rightarrow> None | Some b \<Rightarrow> Some (a - b)))"

text \<open>\<^verbatim>\<open>.dt.total_seconds()\<close>, NaN for NaT.\<close>

definition total_seconds :: "int option \<Rightarrow> rat option" where
  "total_seconds d = map_option (\<lambda>ns. of_int ns / 1000000000) d"

definition div_scalar :: "rat option \<Rightarrow> rat \<Rightarrow> rat option" where
  "div_scalar x c = map_option (\<lambda>v. v / c) x"

text \<open>
  The column assignments of a view, on its copy of the table:
  \<^verbatim>\<open>df_temp['started_at'] = ...\<close>, \<^verbatim>\<open>df_temp['ended_at'] = ...\<close> replace the two
  text columns, \<^verbatim>\<open>df_temp['ride_duration_min'] = ...\<close> and \<^verbatim>\<open>df_temp['date'] = ...\<close>
  add a column.
\<close>

definition set_times :: "string option trip \<Rightarrow> timestamp option \<Rightarrow> timestamp option \<Rightarrow> timestamp option trip" where
  "set_times r s e =
     \<lparr>ride_id = ride_id r, rideable_type = rideable_type r, started_at = s, ended_at = e,
      start_station_name = start_station_name r, end_station_name = end_station_name r,
      start_lat = start_lat r, start_lng = start_lng r, end_lat = end_lat r,
      end_lng = end_lng r, member_casual = member_casual r\<rparr>"

definition add_duration :: "timestamp option trip \<Rightarrow> rat option \<Rightarrow> timed" where
  "add_duration r d = trip.extend r (timed.fields d)"

definition add_date :: "timed \<Rightarrow> day option \<Rightarrow> dated" where
  "add_date r d = timed.extend r (dated.fields d)"

text \<open>
  Lines 153-155 of the final dashboard and 182-184 of the Part 2 dashboard: both
  timestamp columns are converted (the first failure raises), then the duration column
  \<^verbatim>\<open>(ended_at - started_at).dt.total_seconds() / 60\<close> is added.
\<close>

definition derive_duration :: "(string \<Rightarrow> timestamp option) \<Rightarrow> raw_table \<Rightarrow> exn + timed list" where
  "derive_duration parse df =
     (case to_datetime parse (map started_at df) of
        Inl e \<Rightarrow> Inl e
      | Inr ss \<Rightarrow>
          (case to_datetime parse (map ended_at df) of
             Inl e \<Rightarrow> Inl e
           | Inr es \<Rightarrow>
               (let df1 = map (\<lambda>(r, s, e). set_times r s e) (zip df (zip ss es));
                    dur = map (\<lambda>r. div_scalar (total_seconds (sub_ts (ended_at r) (started_at r))) 60) df1
                in Inr (map (\<lambda>(r, d). add_duration r d) (zip df1 dur)))))"

text \<open>
  Lines 68-71 of the final dashboard and 50-53 of the Part 2 dashboard add the date
  column \<^verbatim>\<open>started_at.dt.date\<close> as well (before the duration in the first, after it in
  the second: both read only the converted columns).
\<close>

definition derive_dated :: "(string \<Rightarrow> timestamp option) \<Rightarrow> raw_table \<Rightarrow> exn + dated list" where
  "derive_dated parse df =
     (case derive_duration parse df of
        Inl e \<Rightarrow> Inl e
      | Inr df1 \<Rightarrow> Inr (map (\<lambda>(r, d). add_date r d) (zip df1 (map (\<lambda>r. dt_date (started_at r)) df1))))"

text \<open>
  What the assignments make of one row, for stating the results: a cell can be converted
  when it is missing or the parser accepts its text; the converted row has the parsed
  cells, the duration and the date.
\<close>

definition parses :: "(string \<Rightarrow> timestamp option) \<Rightarrow> string option \<Rightarrow> bool" where
  "parses parse c = (case c of None \<Rightarrow> True | Some s \<Rightarrow> parse s \<noteq> None)"

definition timed_row :: "(string \<Rightarrow> timestamp option) \<Rightarrow> string option trip \<Rightarrow> timed" where
  "timed_row parse r =
     (let s = Option.bind (started_at r) parse; e = Option.bind (ended_at r) parse
      in add_duration (set_times r s e) (div_scalar (total_seconds (sub_ts e s)) 60))"

definition dated_row :: "(string \<Rightarrow> timestamp option) \<Rightarrow> string option trip \<Rightarrow> dated" where
  "dated_row parse r = add_date (timed_row parse r) (dt_date (Option.bind (started_at r) parse))"

section \<open>Inclusion-window filter\<close>

text \<open>
  \<^verbatim>\<open>Series.between(left, right)\<close> with its default \<^verbatim>\<open>inclusive='both'\<close>:
  the mask \<^verbatim>\<open>(s >= left) & (s <= right)\<close>; a comparison with NaN is False.
\<close>

definition between :: "rat option list \<Rightarrow> rat \<Rightarrow> rat \<Rightarrow> bool list" where
  "between s left right =
     map (\<lambda>c. case c of None \<Rightarrow> False | Some v \<Rightarrow> left \<le> v \<and> v \<le> right) s"

text \<open>\<^verbatim>\<open>df[mask]\<close>: the rows at which the mask is True, in their order.\<close>

definition getitem_mask :: "'a list \<Rightarrow> bool list \<Rightarrow> 'a list" where
  "getitem_mask df msk = map fst (filter snd (zip df msk))"

text \<open>\<^verbatim>\<open>df_temp[df_temp['ride_duration_min'].between(low, high)]\<close>.\<close>

definition df_filtered :: "rat \<Rightarrow> rat \<Rightarrow> ('a timed_scheme) list \<Rightarrow> ('a timed_scheme) list" where
  "df_filtered low high df_temp =
     getitem_mask df_temp (between (map ride_duration_min df_temp) low high)"

section \<open>Column reductions\<close>

text \<open>The cells of a column that are not missing, in their order.\<close>

definition dropna :: "'a option list \<Rightarrow> 'a list" where
  "dropna s = map the (filter (\<lambda>c. c \<noteq> None) s)"

text \<open>\<^verbatim>\<open>Series.count()\<close>: the number of cells that are not missing.\<close>

definition series_count :: "'a option list \<Rightarrow> nat" where
  "series_count s = length (dropna s)"

text \<open>\<^verbatim>\<open>Series.mean()\<close> skips NaN and is NaN when nothing is left.\<close>

definition series_mean :: "rat option list \<Rightarrow> rat option" where
  "series_mean s =
     (let xs = dropna s in if xs = [] then None else Some (sum_list xs / of_nat (length xs)))"

text \<open>\<^verbatim>\<open>Series.median()\<close>, likewise.\<close>

definition series_median :: "rat option list \<Rightarrow> rat option" where
  "series_median s =
     (let xs = sort (dropna s); n = length xs in
      if n = 0 then None
      else if odd n then Some (xs ! (n div 2))
      else Some ((xs ! (n div 2 - 1) + xs ! (n div 2)) / 2))"

text \<open>\<^verbatim>\<open>Series.nunique()\<close>: the number of distinct values, NaN left out.\<close>

definition nunique :: "'a option list \<Rightarrow> nat" where
  "nunique s = length (remdups (dropna s))"

section \<open>Daily aggregator\<close>

record daily_stat =
  group_date :: day
  daily_rides :: nat
  avg_duration :: "rat option"

text \<open>
  \<^verbatim>\<open>df.groupby('date')\<close> with its defaults \<^verbatim>\<open>sort=True, dropna=True\<close>: one group
  for each date of the column, in ascending order of the dates; rows with a missing
  date are in no group.
\<close>

definition groupby_date :: "dated list \<Rightarrow> (day \<times> dated list) list" where
  "groupby_date df =
     map (\<lambda>k. (k, filter (\<lambda>r. date r = Some k) df)) (sort (remdups (dropna (map date df))))"

text \<open>
  \<^verbatim>\<open>.agg({'ride_id': 'count', 'ride_duration_min': 'mean'})\<close>: for each group the
  number of \<^verbatim>\<open>ride_id\<close> cells that are not missing, and the mean of the durations.
\<close>

definition daily_stats :: "dated list \<Rightarrow> daily_stat list" where
  "daily_stats df =
     map (\<lambda>(k, g). \<lparr>group_date = k, daily_rides = series_count (map ride_id g),
                     avg_duration = series_mean (map ride_duration_min g)\<rparr>)
       (groupby_date df)"

section \<open>Ranking and categorical breakdown\<close>

text \<open>
  \<^verbatim>\<open>Series.value_counts()\<close> with its defaults \<^verbatim>\<open>sort=True, ascending=False,
  dropna=True\<close>: each distinct value that is not missing with the number of its
  occurrences, the larger counts first. pandas leaves the order of equal counts open;
  here they keep the order in which the values first occur.
\<close>

definition count_values :: "'a option list \<Rightarrow> ('a \<times> nat) list" where
  "count_values s =
     (let vals = dropna s;
          keys = rev (remdups (rev vals))
      in map (\<lambda>k. (k, count_list vals k)) keys)"

definition value_counts :: "'a option list \<Rightarrow> ('a \<times> nat) list" where
  "value_counts s = sort_key (\<lambda>(k, c). - int c) (count_values s)"

text \<open>\<^verbatim>\<open>.head(n)\<close>.\<close>

definition head :: "nat \<Rightarrow> 'a list \<Rightarrow> 'a list" where
  "head n xs = take n xs"

text \<open>\<^verbatim>\<open>df[column].value_counts().head(n)\<close>, the ranking of both dashboards (n = 10).\<close>

definition top_n :: "'a option list \<Rightarrow> nat \<Rightarrow> ('a \<times> nat) list" where
  "top_n column n = head n (value_counts column)"

text \<open>\<^verbatim>\<open>counts.get(key, default)\<close> and \<^verbatim>\<open>counts.sum()\<close> on a series of counts.\<close>

definition series_get :: "('a \<times> nat) list \<Rightarrow> 'a \<Rightarrow> nat \<Rightarrow> nat" where
  "series_get counts key dflt = (case map_of counts key of None \<Rightarrow> dflt | Some c \<Rightarrow> c)"

definition series_sum :: "('a \<times> nat) list \<Rightarrow> nat" where
  "series_sum counts = sum_list (map snd counts)"

text \<open>
  \<^verbatim>\<open>(counts.get(key, 0) / counts.sum()) * 100\<close>, the expression of \<^verbatim>\<open>member_pct\<close>
  and \<^verbatim>\<open>electric_pct\<close>. The sum is a numpy integer: dividing by a sum of 0 gives
  NaN (\<open>None\<close>), not an exception.
\<close>

definition pct :: "('a \<times> nat) list \<Rightarrow> 'a \<Rightarrow> rat option" where
  "pct counts key =
     (if series_sum counts = 0 then None
      else Some (of_nat (series_get counts key 0) / of_nat (series_sum counts) * 100))"

text \<open>The percentage of every category of a breakdown, and their sum (NaN if one is).\<close>

definition percentages :: "('a \<times> nat) list \<Rightarrow> ('a \<times> rat option) list" where
  "percentages counts = map (\<lambda>(k, c). (k, pct counts k)) counts"

definition sum_percentages :: "('a \<times> nat) list \<Rightarrow> rat option" where
  "sum_percentages counts =
     (if None \<in> set (map snd (percentages counts)) then None
      else Some (sum_list (dropna (map snd (percentages counts)))))"

section \<open>Station map\<close>

text \<open>
  Lines 112-113 of the Part 2 dashboard:
  \<^verbatim>\<open>df.groupby(['start_station_name', 'start_lat', 'start_lng']).size()\<close>, one entry
  for each triple of the table in ascending order; a row with a missing key is in no
  group, so the \<^verbatim>\<open>dropna\<close> that follows removes nothing.
\<close>

definition station_key :: "'t trip \<Rightarrow> (string \<times> rat \<times> rat) option" where
  "station_key r =
     (case start_station_name r of
        None \<Rightarrow> None
      | Some n \<Rightarrow>
          (case start_lat r of
             None \<Rightarrow> None
           | Some la \<Rightarrow> (case start_lng r of None \<Rightarrow> None | Some lo \<Rightarrow> Some (n, la, lo))))"

definition station_data :: "raw_table \<Rightarrow> ((string \<times> rat \<times> rat) \<times> nat) list" where
  "station_data df =
     (let keys = dropna (map station_key df)
      in map (\<lambda>k. (k, count_list keys k)) (sort (remdups keys)))"

section \<open>Objects, the loader and its cache\<close>

text \<open>
  What a run hands to the presentation surface: the aggregates of the selected page,
  one element for each, the error boxes of \<^verbatim>\<open>st.error\<close>, and the box in which the
  script runner of Streamlit shows an exception that no handler caught. Charts and
  metrics that only display an aggregate again, and the text of a page, are left out.
\<close>

datatype element =
    StError string
  | StException exn
  | Preview raw_table
  | MetricCount string nat
  | MetricValue string "rat option"
  | Ranking "(string \<times> nat) list"
  | Daily "daily_stat list"
  | Histogram nat "rat option list"
  | Durations "rat option list"
  | StationMap "((string \<times> rat \<times> rat) \<times> nat) list"

text \<open>
  Line 159 of the final dashboard:
  \<^verbatim>\<open>pd.cut(df_filtered['ride_duration_min'], bins=20).value_counts().sort_index()\<close>.
  \<^verbatim>\<open>pd.cut\<close> raises ValueError for an empty column. Otherwise it computes its bin
  edges in float64 (\<^verbatim>\<open>np.linspace\<close>), compares the values with them and rounds the
  edges for the labels: which bin a value on an edge falls into depends on the rounding,
  which is not modelled. The histogram is therefore the element that holds the number
  of bins and the column to be binned, as the column that the Part 2 dashboard hands to
  its chart library.
\<close>

definition hist_data :: "nat \<Rightarrow> rat option list \<Rightarrow> exn + element" where
  "hist_data bins x = (if bins < 1 \<or> x = [] then Inl ValueError else Inr (Histogram bins x))"

text \<open>
  A DataFrame that a page changes in place is an object: the store is the list of the
  objects of a run, and a variable holds the index of its object. \<^verbatim>\<open>df.copy()\<close>
  makes a new object; a column assignment \<^verbatim>\<open>df_temp[c] = ...\<close> changes the object of
  \<^verbatim>\<open>df_temp\<close>. An object has one of three shapes: the table as read, with the
  duration column, with the duration and the date column. A statement on an object of
  another shape than it reads raises \<open>TypeError\<close>; no run of the dashboards does.
  Tables that are only read after they are made (\<^verbatim>\<open>df_filtered\<close>, the aggregates) are
  values.
\<close>

datatype frame = RawFrame raw_table | TimedFrame "timed list" | DatedFrame "dated list"

type_synonym store = "frame list"

definition alloc :: "frame \<Rightarrow> store \<Rightarrow> nat \<times> store" where
  "alloc f h = (length h, h @ [f])"

definition df_copy :: "nat \<Rightarrow> store \<Rightarrow> nat \<times> store" where
  "df_copy a h = alloc (h ! a) h"

text \<open>The column assignments of lines 153-155 (182-184 in Part 2), on the object \<open>a\<close>.\<close>

definition assign_duration :: "(string \<Rightarrow> timestamp option) \<Rightarrow> nat \<Rightarrow> store \<Rightarrow> (exn + timed list) \<times> store" where
  "assign_duration parse a h =
     (case h ! a of
        RawFrame t \<Rightarrow>
          (case derive_duration parse t of
             Inl e \<Rightarrow> (Inl e, h)
           | Inr t' \<Rightarrow> (Inr t', h[a := TimedFrame t']))
      | _ \<Rightarrow> (Inl TypeError, h))"

text \<open>The column assignments of lines 68-71 (50-53 in Part 2), on the object \<open>a\<close>.\<close>

definition assign_dated :: "(string \<Rightarrow> timestamp option) \<Rightarrow> nat \<Rightarrow> store \<Rightarrow> (exn + dated list) \<times> store" where
  "assign_dated parse a h =
     (case h ! a of
        RawFrame t \<Rightarrow>
          (case derive_dated parse t of
             Inl e \<Rightarrow> (Inl e, h)
           | Inr t' \<Rightarrow> (Inr t', h[a := DatedFrame t']))
      | _ \<Rightarrow> (Inl TypeError, h))"

text \<open>Reading the table of the object \<open>a\<close>, for the pages that only aggregate.\<close>

definition read_raw :: "nat \<Rightarrow> store \<Rightarrow> exn + raw_table" where
  "read_raw a h = (case h ! a of RawFrame t \<Rightarrow> Inr t | _ \<Rightarrow> Inl TypeError)"

text \<open>
  The state that outlives a run: the memo of \<^verbatim>\<open>@st.cache_data\<close> for \<^verbatim>\<open>load_data\<close>
  (the value returned and the elements rendered by the call that computed it, which a
  later call replays), and the number of times the file was opened. The file is what
  \<^verbatim>\<open>pd.read_csv\<close> would return for it, \<open>None\<close> when it does not exist.
\<close>

record 'v session =
  cache :: "('v \<times> element list) option"
  reads :: nat

definition read_csv :: "raw_table option \<Rightarrow> 'v session \<Rightarrow> (exn + raw_table) \<times> 'v session" where
  "read_csv file s =
     (case file of
        None \<Rightarrow> (Inl FileNotFoundError, s\<lparr>reads := reads s + 1\<rparr>)
      | Some t \<Rightarrow> (Inr t, s\<lparr>reads := reads s + 1\<rparr>))"

text \<open>
  \<^verbatim>\<open>@st.cache_data\<close>: a call returns the memo when there is one, without running the
  function; otherwise it runs the function and keeps what it returned. An exception is
  not kept.
\<close>

definition cache_data :: "('v session \<Rightarrow> (exn + 'v \<times> element list) \<times> 'v session) \<Rightarrow> 'v session \<Rightarrow> (exn + 'v \<times> element list) \<times> 'v session" where
  "cache_data body s =
     (case cache s of
        Some hit \<Rightarrow> (Inr hit, s)
      | None \<Rightarrow>
          (case body s of
             (Inl e, s') \<Rightarrow> (Inl e, s')
           | (Inr r, s') \<Rightarrow> (Inr r, s'\<lparr>cache := Some r\<rparr>)))"

text \<open>\<^verbatim>\<open>load_data\<close> of the final dashboard (lines 14-20): a missing file is caught.\<close>

definition load_data_fixed :: "raw_table option \<Rightarrow> raw_table option session \<Rightarrow> (exn + raw_table option \<times> element list) \<times> raw_table option session" where
  "load_data_fixed file s =
     (case read_csv file s of
        (Inr df, s') \<Rightarrow> (Inr (Some df, []), s')
      | (Inl FileNotFoundError, s') \<Rightarrow>
          (Inr (None, [StError ''Data file not found. Please ensure 202201-citibike-tripdata_1_sample.csv is in the same directory.'']), s')
      | (Inl e, s') \<Rightarrow> (Inl e, s'))"

text \<open>\<^verbatim>\<open>load_data\<close> of the Part 2 dashboard (lines 9-11): no handler.\<close>

definition load_data_part2 :: "raw_table option \<Rightarrow> raw_table session \<Rightarrow> (exn + raw_table \<times> element list) \<times> raw_table session" where
  "load_data_part2 file s =
     (case read_csv file s of
        (Inr df, s') \<Rightarrow> (Inr (df, []), s')
      | (Inl e, s') \<Rightarrow> (Inl e, s'))"

section \<open>The pages of the final dashboard\<close>

text \<open>
  A page gets the object \<open>df\<close> of the loaded table and the store; it returns the
  exception that ended it (if any), the elements rendered until then, and the store.
\<close>

datatype page = Intro | DailyTrends | PopularStations | UserAnalysis | Recommendations

type_synonym page_result = "(exn option \<times> element list) \<times> store"

text \<open>Lines 47-56: the number of rides and of start stations, and \<^verbatim>\<open>df.head()\<close>.\<close>

definition intro :: "nat \<Rightarrow> store \<Rightarrow> page_result" where
  "intro df h =
     (case read_raw df h of
        Inl e \<Rightarrow> ((Some e, []), h)
      | Inr t \<Rightarrow>
          ((None, [MetricCount ''Total Rides'' (length t),
                   MetricCount ''Unique Stations'' (nunique (map start_station_name t)),
                   Preview (head 5 t)]), h))"

text \<open>Lines 67-80: the copy, its derived columns, the filter (1, 120), the daily aggregate.\<close>

definition daily_trends :: "(string \<Rightarrow> timestamp option) \<Rightarrow> nat \<Rightarrow> store \<Rightarrow> page_result" where
  "daily_trends parse df h =
     (case df_copy df h of (df_temp, h1) \<Rightarrow>
        (case assign_dated parse df_temp h1 of
           (Inl e, h2) \<Rightarrow> ((Some e, []), h2)
         | (Inr t, h2) \<Rightarrow> ((None, [Daily (daily_stats (df_filtered 1 120 t))]), h2)))"

text \<open>Lines 102 and 117: the ten most frequent start and end stations.\<close>

definition popular_stations :: "nat \<Rightarrow> store \<Rightarrow> page_result" where
  "popular_stations df h =
     (case read_raw df h of
        Inl e \<Rightarrow> ((Some e, []), h)
      | Inr t \<Rightarrow>
          ((None, [Ranking (top_n (map start_station_name t) 10),
                   Ranking (top_n (map end_station_name t) 10)]), h))"

text \<open>Lines 126-148 (142-177 in Part 2): the breakdown by user type and by bike type.\<close>

definition breakdowns :: "raw_table \<Rightarrow> element list" where
  "breakdowns t =
     (let user_type_counts = value_counts (map member_casual t);
          bike_type_counts = value_counts (map rideable_type t)
      in [Ranking user_type_counts,
          MetricCount ''Total Members'' (series_get user_type_counts ''member'' 0),
          MetricCount ''Total Casual Users'' (series_get user_type_counts ''casual'' 0),
          MetricValue ''Member Percentage'' (pct user_type_counts ''member''),
          Ranking bike_type_counts,
          MetricCount ''Classic Bike Rides'' (series_get bike_type_counts ''classic_bike'' 0),
          MetricCount ''Electric Bike Rides'' (series_get bike_type_counts ''electric_bike'' 0),
          MetricValue ''Electric Bike %'' (pct bike_type_counts ''electric_bike'')])"

text \<open>
  Lines 126-170: the breakdowns, then the copy, its duration column, the filter (1, 60),
  the histogram of 20 bins, and the mean and median duration.
\<close>

definition user_analysis :: "(string \<Rightarrow> timestamp option) \<Rightarrow> nat \<Rightarrow> store \<Rightarrow> page_result" where
  "user_analysis parse df h =
     (case read_raw df h of
        Inl e \<Rightarrow> ((Some e, []), h)
      | Inr t \<Rightarrow>
          (case df_copy df h of (df_temp, h1) \<Rightarrow>
             (case assign_duration parse df_temp h1 of
                (Inl e, h2) \<Rightarrow> ((Some e, breakdowns t), h2)
              | (Inr t', h2) \<Rightarrow>
                  (let durations = map ride_duration_min (df_filtered 1 60 t') in
                   case hist_data 20 durations of
                     Inl e \<Rightarrow> ((Some e, breakdowns t), h2)
                   | Inr hist \<Rightarrow>
                       ((None, breakdowns t @
                          [hist,
                           MetricValue ''Average ride duration'' (series_mean durations),
                           MetricValue ''Median ride duration'' (series_median durations)]), h2)))))"

definition run_page :: "(string \<Rightarrow> timestamp option) \<Rightarrow> page \<Rightarrow> nat \<Rightarrow> store \<Rightarrow> page_result" where
  "run_page parse p df h =
     (case p of
        Intro \<Rightarrow> intro df h
      | DailyTrends \<Rightarrow> daily_trends parse df h
      | PopularStations \<Rightarrow> popular_stations df h
      | UserAnalysis \<Rightarrow> user_analysis parse df h
      | Recommendations \<Rightarrow> ((None, []), h))"

section \<open>The pages of the Part 2 dashboard\<close>

datatype page2 =
  Intro2 | DualAxisLineChart | MostPopularStations | KeplerMap | AdditionalInsights
  | Recommendations2

text \<open>Line 39: \<^verbatim>\<open>df.head()\<close>.\<close>

definition intro2 :: "nat \<Rightarrow> store \<Rightarrow> page_result" where
  "intro2 df h =
     (case read_raw df h of
        Inl e \<Rightarrow> ((Some e, []), h)
      | Inr t \<Rightarrow> ((None, [Preview (head 5 t)]), h))"

text \<open>Lines 49-57: the copy, its derived columns, the daily aggregate of all its rows.\<close>

definition dual_axis_line_chart :: "(string \<Rightarrow> timestamp option) \<Rightarrow> nat \<Rightarrow> store \<Rightarrow> page_result" where
  "dual_axis_line_chart parse df h =
     (case df_copy df h of (df_temp, h1) \<Rightarrow>
        (case assign_dated parse df_temp h1 of
           (Inl e, h2) \<Rightarrow> ((Some e, []), h2)
         | (Inr t, h2) \<Rightarrow> ((None, [Daily (daily_stats t)]), h2)))"

text \<open>Line 84.\<close>

definition most_popular_stations :: "nat \<Rightarrow> store \<Rightarrow> page_result" where
  "most_popular_stations df h =
     (case read_raw df h of
        Inl e \<Rightarrow> ((Some e, []), h)
      | Inr t \<Rightarrow> ((None, [Ranking (top_n (map start_station_name t) 10)]), h))"

text \<open>Lines 112-113.\<close>

definition kepler_map :: "nat \<Rightarrow> store \<Rightarrow> page_result" where
  "kepler_map df h =
     (case read_raw df h of
        Inl e \<Rightarrow> ((Some e, []), h)
      | Inr t \<Rightarrow> ((None, [StationMap (station_data t)]), h))"

text \<open>
  Lines 142-200: the breakdowns, then the copy, its duration column, the filter (1, 60);
  the filtered durations go to the chart library, which bins them, and their mean and
  median are written.
\<close>

definition additional_insights :: "(string \<Rightarrow> timestamp option) \<Rightarrow> nat \<Rightarrow> store \<Rightarrow> page_result" where
  "additional_insights parse df h =
     (case read_raw df h of
        Inl e \<Rightarrow> ((Some e, []), h)
      | Inr t \<Rightarrow>
          (case df_copy df h of (df_temp, h1) \<Rightarrow>
             (case assign_duration parse df_temp h1 of
                (Inl e, h2) \<Rightarrow> ((Some e, breakdowns t), h2)
              | (Inr t', h2) \<Rightarrow>
                  (let durations = map ride_duration_min (df_filtered 1 60 t') in
                   ((None, breakdowns t @
                      [Durations durations,
                       MetricValue ''Average ride duration'' (series_mean durations),
                       MetricValue ''Median ride duration'' (series_median durations)]), h2)))))"

definition run_page2 :: "(string \<Rightarrow> timestamp option) \<Rightarrow> page2 \<Rightarrow> nat \<Rightarrow> store \<Rightarrow> page_result" where
  "run_page2 parse p df h =
     (case p of
        Intro2 \<Rightarrow> intro2 df h
      | DualAxisLineChart \<Rightarrow> dual_axis_line_chart parse df h
      | MostPopularStations \<Rightarrow> most_popular_stations df h
      | KeplerMap \<Rightarrow> kepler_map df h
      | AdditionalInsights \<Rightarrow> additional_insights parse df h
      | Recommendations2 \<Rightarrow> ((None, []), h))"

section \<open>A run of a dashboard\<close>

text \<open>
  Every selection of a page runs the script from its first line with a new store; the
  session is what remains of the runs before. A run ends with the exception that no
  handler caught (if any), the elements rendered, and its store, in which the loaded
  table is object 0. An exception that no handler catches stops the script where it is
  raised; the script runner then shows it in the page, below what was rendered.
\<close>

record run =
  uncaught :: "exn option"
  rendered :: "element list"
  objects :: store

definition runner_box :: "exn option \<Rightarrow> element list" where
  "runner_box err = (case err of None \<Rightarrow> [] | Some e \<Rightarrow> [StException e])"

text \<open>
  The final dashboard (lines 33-213): \<^verbatim>\<open>df = load_data()\<close>, then the selected page if
  \<^verbatim>\<open>df is not None\<close>, and an error box otherwise.
\<close>

definition app_fixed :: "(string \<Rightarrow> timestamp option) \<Rightarrow> raw_table option \<Rightarrow> page \<Rightarrow> raw_table option session \<Rightarrow> run \<times> raw_table option session" where
  "app_fixed parse file p s =
     (case cache_data (load_data_fixed file) s of
        (Inl e, s') \<Rightarrow> (\<lparr>uncaught = Some e, rendered = runner_box (Some e), objects = []\<rparr>, s')
      | (Inr (None, els), s') \<Rightarrow>
          (\<lparr>uncaught = None,
            rendered = els @ [StError ''Unable to load data. Please check that the CSV file is uploaded correctly.''],
            objects = []\<rparr>, s')
      | (Inr (Some t, els), s') \<Rightarrow>
          (case alloc (RawFrame t) [] of (df, h) \<Rightarrow>
             (case run_page parse p df h of ((err, out), h') \<Rightarrow>
                (\<lparr>uncaught = err, rendered = els @ out @ runner_box err, objects = h'\<rparr>, s'))))"

text \<open>The Part 2 dashboard (lines 13-228): \<^verbatim>\<open>df = load_data()\<close>, then the selected page.\<close>

definition app_part2 :: "(string \<Rightarrow> timestamp option) \<Rightarrow> raw_table option \<Rightarrow> page2 \<Rightarrow> raw_table session \<Rightarrow> run \<times> raw_table session" where
  "app_part2 parse file p s =
     (case cache_data (load_data_part2 file) s of
        (Inl e, s') \<Rightarrow> (\<lparr>uncaught = Some e, rendered = runner_box (Some e), objects = []\<rparr>, s')
      | (Inr (t, els), s') \<Rightarrow>
          (case alloc (RawFrame t) [] of (df, h) \<Rightarrow>
             (case run_page2 parse p df h of ((err, out), h') \<Rightarrow>
                (\<lparr>uncaught = err, rendered = els @ out @ runner_box err, objects = h'\<rparr>, s'))))"

text \<open>A sequence of selections in one process, each with the file as it is then.\<close>

fun runs_fixed :: "(string \<Rightarrow> timestamp option) \<Rightarrow> (raw_table option \<times> page) list \<Rightarrow> raw_table option session \<Rightarrow> run list \<times> raw_table option session" where
  "runs_fixed parse [] s = ([], s)"
| "runs_fixed parse ((file, p) # ps) s =
     (case app_fixed parse file p s of (r, s') \<Rightarrow>
        (case runs_fixed parse ps s' of (rs, s'') \<Rightarrow> (r # rs, s'')))"

fun runs_part2 :: "(string \<Rightarrow> timestamp option) \<Rightarrow> (raw_table option \<times> page2) list \<Rightarrow> raw_table session \<Rightarrow> run list \<times> raw_table session" where
  "runs_part2 parse [] s = ([], s)"
| "runs_part2 parse ((file, p) # ps) s =
     (case app_part2 parse file p s of (r, s') \<Rightarrow>
        (case runs_part2 parse ps s' of (rs, s'') \<Rightarrow> (r # rs, s'')))"

section \<open>Sample inputs\<close>

text \<open>
  A parser for the timestamps of the samples: each text with its nanoseconds since the
  epoch (2022-01-01 is day 18993).
\<close>

definition sample_parse :: "string \<Rightarrow> timestamp option" where
  "sample_parse = map_of
     [(''2022-01-01 08:00:00'', 1641024000000000000),
      (''2022-01-01 08:01:00'', 1641024060000000000),
      (''2022-01-01 08:05:00'', 1641024300000000000),
      (''2022-01-01 08:50:00'', 1641027000000000000),
      (''2022-01-01 10:00:00'', 1641031200000000000),
      (''2022-01-01 10:10:00'', 1641031800000000000)]"

definition mk_trip :: "string option \<Rightarrow> string option \<Rightarrow> string option \<Rightarrow> string option \<Rightarrow> string option trip" where
  "mk_trip rid s e member =
     \<lparr>ride_id = rid, rideable_type = Some ''classic_bike'', started_at = s, ended_at = e,
      start_station_name = Some ''W 21 St'', end_station_name = None,
      start_lat = None, start_lng = None, end_lat = None, end_lng = None,
      member_casual = member\<rparr>"

text \<open>Three rides of one day, of 5, 50 and 130 minutes.\<close>

definition sample_table :: raw_table where
  "sample_table =
     [mk_trip (Some ''A1'') (Some ''2022-01-01 08:00:00'') (Some ''2022-01-01 08:05:00'') (Some ''member''),
      mk_trip (Some ''A2'') (Some ''2022-01-01 08:00:00'') (Some ''2022-01-01 08:50:00'') (Some ''member''),
      mk_trip (Some ''A3'') (Some ''2022-01-01 08:00:00'') (Some ''2022-01-01 10:10:00'') (Some ''casual'')]"

text \<open>Rides of exactly 1 and 120 minutes, one of 130 minutes and one that never ended.\<close>

definition boundary_table :: raw_table where
  "boundary_table =
     [mk_trip (Some ''B1'') (Some ''2022-01-01 08:00:00'') (Some ''2022-01-01 08:01:00'') (Some ''member''),
      mk_trip (Some ''B2'') (Some ''2022-01-01 08:00:00'') (Some ''2022-01-01 10:00:00'') (Some ''casual''),
      mk_trip (Some ''B3'') (Some ''2022-01-01 08:00:00'') (Some ''2022-01-01 10:10:00'') (Some ''casual''),
      mk_trip (Some ''B4'') (Some ''2022-01-01 08:00:00'') None (Some ''member'')]"

text \<open>A ride of 5 minutes whose \<^verbatim>\<open>ride_id\<close> cell is empty in the file.\<close>

definition anonymous_table :: raw_table where
  "anonymous_table =
     [mk_trip None (Some ''2022-01-01 08:00:00'') (Some ''2022-01-01 08:05:00'') (Some ''member'')]"

text \<open>A table with a timestamp that is no date.\<close>

definition broken_table :: raw_table where
  "broken_table =
     [mk_trip (Some ''C1'') (Some ''2022-01-01 08:00:00'') (Some ''2022-01-01 08:05:00'') (Some ''member''),
      mk_trip (Some ''C2'') (Some ''2022-01-01 08:00:00'') (Some ''soon'') (Some ''member'')]"

text \<open>A ride on a docked bike whose \<^verbatim>\<open>member_casual\<close> cell is empty in the file.\<close>

definition docked_table :: raw_table where
  "docked_table =
     [(mk_trip (Some ''D1'') (Some ''2022-01-01 08:00:00'') (Some ''2022-01-01 08:05:00'') None)
        \<lparr>rideable_type := Some ''docked_bike''\<rparr>]"

lemmas sample_defs =
  sample_parse_def mk_trip_def sample_table_def boundary_table_def anonymous_table_def
  broken_table_def

lemmas derive_defs =
  derive_dated_def derive_duration_def set_times_def add_duration_def add_date_def
  trip.defs timed.defs dated.defs dt_date_def sub_ts_def total_seconds_def div_scalar_def

lemmas aggregate_defs =
  df_filtered_def between_def getitem_mask_def daily_stats_def groupby_date_def dropna_def
  series_count_def series_mean_def

section \<open>Missing cells and column reductions\<close>

lemma dropna_simps [simp]:
  "dropna [] = []"
  "dropna (None # s) = dropna s"
  "dropna (Some v # s) = v # dropna s"
  by (simp_all add: dropna_def)

lemma set_dropna: "set (dropna s) = {v. Some v \<in> set s}"
  by (induction s) (auto simp: dropna_def)

lemma dropna_no_None: "None \<notin> set s \<Longrightarrow> map Some (dropna s) = s"
proof (induction s)
  case Nil
  then show ?case by simp
next
  case (Cons a s)
  then show ?case by (cases a) simp_all
qed

lemma length_dropna_no_None: "None \<notin> set s \<Longrightarrow> length (dropna s) = length s"
  using dropna_no_None [of s] by (metis length_map)

lemma dropna_map_filter:
  "dropna (map f xs) = map (\<lambda>x. the (f x)) (filter (\<lambda>x. f x \<noteq> None) xs)"
  by (simp add: dropna_def filter_map comp_def)

section \<open>Counting the values of a column\<close>

lemma mset_value_counts: "mset (value_counts s) = mset (count_values s)"
  by (simp add: value_counts_def)

lemma set_value_counts: "set (value_counts s) = set (count_values s)"
  by (simp add: value_counts_def)

lemma map_fst_count_values: "map fst (count_values s) = rev (remdups (rev (dropna s)))"
  by (simp add: count_values_def Let_def comp_def)

lemma distinct_fst_value_counts: "distinct (map fst (value_counts s))"
proof -
  have "mset (map fst (value_counts s)) = mset (map fst (count_values s))"
    by (simp add: mset_value_counts)
  moreover have "distinct (map fst (count_values s))"
    by (simp add: map_fst_count_values)
  ultimately show ?thesis
    by (metis mset_eq_imp_distinct_iff)
qed

lemma length_value_counts: "length (value_counts s) = nunique s"
  by (simp add: value_counts_def count_values_def Let_def nunique_def length_remdups_card_conv)

lemma in_value_counts:
  "(k, c) \<in> set (value_counts s) \<longleftrightarrow> k \<in> set (dropna s) \<and> c = count_list (dropna s) k"
  by (auto simp: set_value_counts count_values_def Let_def)

lemma map_of_value_counts:
  "map_of (value_counts s) k =
     (if k \<in> set (dropna s) then Some (count_list (dropna s) k) else None)"
proof (cases "k \<in> set (dropna s)")
  case True
  then have "(k, count_list (dropna s) k) \<in> set (value_counts s)"
    by (simp add: in_value_counts)
  then show ?thesis
    using True distinct_fst_value_counts [of s] by simp
next
  case False
  then have "k \<notin> fst ` set (value_counts s)"
    by (auto simp: in_value_counts)
  then show ?thesis
    using False by (simp add: map_of_eq_None_iff)
qed

lemma series_get_value_counts:
  "series_get (value_counts s) k 0 = count_list (dropna s) k"
  by (simp add: series_get_def map_of_value_counts count_list_0_iff)

lemma sorted_value_counts: "sorted_wrt (\<lambda>a b. snd b \<le> snd a) (value_counts s)"
proof -
  have "sorted (map (\<lambda>(k, c). - int c) (value_counts s))"
    unfolding value_counts_def by (rule sorted_sort_key)
  then show ?thesis
    by (simp add: sorted_map case_prod_unfold sorted_wrt_iff_nth_less)
qed

lemma series_sum_value_counts: "series_sum (value_counts s) = length (dropna s)"
proof -
  have "series_sum (value_counts s) = sum_mset (image_mset snd (mset (value_counts s)))"
    by (simp add: series_sum_def sum_mset_sum_list [symmetric] del: sum_mset_sum_list)
  also have "\<dots> = sum_list (map snd (count_values s))"
    by (simp add: mset_value_counts sum_mset_sum_list [symmetric] del: sum_mset_sum_list)
  also have "\<dots> = sum_list (map (count_list (dropna s)) (rev (remdups (rev (dropna s)))))"
    by (simp add: count_values_def Let_def comp_def)
  also have "\<dots> = sum (count_list (dropna s)) (set (dropna s))"
    by (subst sum_list_distinct_conv_sum_set) simp_all
  also have "\<dots> = length (dropna s)"
    by (rule sum_count_set) simp_all
  finally show ?thesis .
qed

lemma count_list_dropna: "count_list (dropna s) v = count_list s (Some v)"
  by (induction s) (auto simp: dropna_def)

lemma dropna_eq_Nil: "dropna s = [] \<longleftrightarrow> (\<forall>v. Some v \<notin> set s)"
  using set_dropna [of s] by (metis (mono_tags, lifting) Collect_empty_eq empty_iff empty_set mem_Collect_eq set_empty2)

lemma nunique_card: "nunique s = card {v. Some v \<in> set s}"
  by (simp add: nunique_def length_remdups_card_conv set_dropna)

lemma pct_value_counts:
  "dropna s \<noteq> [] \<Longrightarrow>
   pct (value_counts s) k = Some (of_nat (count_list s (Some k)) / of_nat (length (dropna s)) * 100)"
  by (simp add: pct_def series_sum_value_counts series_get_value_counts count_list_dropna)

lemma series_get_member:
  "(k, c) \<in> set (value_counts s) \<Longrightarrow> series_get (value_counts s) k 0 = c"
  by (simp add: in_value_counts series_get_value_counts)

lemma sum_list_scaled:
  "sum_list (map (\<lambda>p. of_nat (snd p) / n * 100) xs) = of_nat (sum_list (map snd xs)) / (n :: rat) * 100"
  by (induction xs) (simp_all add: add_divide_distrib distrib_right)

lemma sum_percentages_value_counts:
  assumes "dropna s \<noteq> []"
  shows "sum_percentages (value_counts s) = Some 100"
proof -
  let ?vc = "value_counts s"
  let ?n = "of_nat (length (dropna s)) :: rat"
  have n: "?n \<noteq> 0" using assms by simp
  have p: "map snd (percentages ?vc) = map (\<lambda>p. Some (of_nat (snd p) / ?n * 100)) ?vc"
    unfolding percentages_def map_map
  proof (rule map_cong [OF refl])
    fix p assume m: "p \<in> set ?vc"
    obtain k c where kc: "p = (k, c)" by (cases p)
    have "series_get ?vc k 0 = c"
      using m unfolding kc by (rule series_get_member)
    then show "(snd \<circ> (\<lambda>(k, c). (k, pct ?vc k))) p = Some (of_nat (snd p) / ?n * 100)"
      using assms by (simp add: kc pct_def series_sum_value_counts)
  qed
  have d: "dropna (map snd (percentages ?vc)) = map (\<lambda>p. of_nat (snd p) / ?n * 100) ?vc"
    unfolding p by (simp add: dropna_def comp_def)
  have "sum_list (map (\<lambda>p. of_nat (snd p) / ?n * 100) ?vc)
        = of_nat (sum_list (map snd ?vc)) / ?n * 100"
    by (rule sum_list_scaled)
  also have "\<dots> = 100"
    using n series_sum_value_counts [of s] by (simp add: series_sum_def)
  finally have s: "sum_list (dropna (map snd (percentages ?vc))) = 100"
    unfolding d .
  have "None \<notin> set (map snd (percentages ?vc))"
    unfolding p by auto
  then show ?thesis
    unfolding sum_percentages_def using s by simp
qed

section \<open>Ranking\<close>

text \<open>
  C5. For every column and every \<open>n\<close>, the ranking \<^verbatim>\<open>value_counts().head(n)\<close> has
  \<open>min n d\<close> entries, where \<open>d\<close> is the number of distinct values of the column
  (a missing cell is no value); each entry pairs a value of the column with the number
  of its occurrences; the counts never increase from the first entry to the last; and
  no value appears twice.
\<close>

theorem C5_top_n:
  "length (top_n column n) = min n (nunique column)
   \<and> nunique column = card {v. Some v \<in> set column}
   \<and> (\<forall>(v, c) \<in> set (top_n column n). Some v \<in> set column \<and> c = count_list column (Some v))
   \<and> sorted_wrt (\<ge>) (map snd (top_n column n))
   \<and> distinct (map fst (top_n column n))"
proof (intro conjI)
  show "length (top_n column n) = min n (nunique column)"
    by (simp add: top_n_def head_def length_value_counts min.commute)
  show "nunique column = card {v. Some v \<in> set column}"
    by (rule nunique_card)
  show "\<forall>(v, c) \<in> set (top_n column n). Some v \<in> set column \<and> c = count_list column (Some v)"
  proof (clarify)
    fix v c
    assume "(v, c) \<in> set (top_n column n)"
    then have "(v, c) \<in> set (value_counts column)"
      unfolding top_n_def head_def by (rule in_set_takeD)
    then show "Some v \<in> set column \<and> c = count_list column (Some v)"
      by (simp add: in_value_counts set_dropna count_list_dropna)
  qed
  have "sorted_wrt (\<lambda>a b. snd b \<le> snd a) (top_n column n)"
    unfolding top_n_def head_def by (rule sorted_wrt_take) (rule sorted_value_counts)
  then show "sorted_wrt (\<ge>) (map snd (top_n column n))"
    by (simp add: sorted_wrt_map)
  show "distinct (map fst (top_n column n))"
    unfolding top_n_def head_def take_map [symmetric]
    by (rule distinct_take) (rule distinct_fst_value_counts)
qed

theorem C5_top_n_witness:
  "top_n [Some ''W 21 St'', Some ''E 17 St'', None, Some ''E 17 St''] 1 = [(''E 17 St'', 2)]
   \<and> min 1 (nunique [Some ''W 21 St'', Some ''E 17 St'', None, Some ''E 17 St'']) = 1"
proof -
  have e: "top_n [Some ''W 21 St'', Some ''E 17 St'', None, Some ''E 17 St''] 1 = [(''E 17 St'', 2)]"
    by (simp add: top_n_def head_def value_counts_def count_values_def)
  have "length (top_n [Some ''W 21 St'', Some ''E 17 St'', None, Some ''E 17 St''] 1)
          = min 1 (nunique [Some ''W 21 St'', Some ''E 17 St'', None, Some ''E 17 St''])"
    using C5_top_n [of "[Some ''W 21 St'', Some ''E 17 St'', None, Some ''E 17 St'']" 1]
    by (rule conjunct1)
  then show ?thesis
    unfolding e by simp
qed

section \<open>Categorical breakdown\<close>

text \<open>
  C7. The breakdowns of the user analysis page (lines 126-148; 142-177 in Part 2) render
  eight elements: the counts of the user types, the numbers of rows of members and of
  casual users, the share of members, the counts of the bike types, the numbers of rows
  of classic and of electric bikes, and the share of electric bikes. For every table in
  which one of the four queried categories does not occur, its metric is rendered with
  the count 0, and its share with 0, or NaN when the column has no value at all
  (\<^verbatim>\<open>counts.get(key, 0)\<close> is a value, never an exception); the count rendered for a
  category that occurs is the number of its rows and its percentage is that count over
  the number of rows with a value, whichever other category is absent. Both pages render
  the eight elements in full, whatever the later part of the page does.
\<close>

theorem C7_absent_category:
  "breakdowns t =
     [Ranking (value_counts (map member_casual t)),
      MetricCount ''Total Members'' (count_list (map member_casual t) (Some ''member'')),
      MetricCount ''Total Casual Users'' (count_list (map member_casual t) (Some ''casual'')),
      MetricValue ''Member Percentage'' (pct (value_counts (map member_casual t)) ''member''),
      Ranking (value_counts (map rideable_type t)),
      MetricCount ''Classic Bike Rides'' (count_list (map rideable_type t) (Some ''classic_bike'')),
      MetricCount ''Electric Bike Rides'' (count_list (map rideable_type t) (Some ''electric_bike'')),
      MetricValue ''Electric Bike %'' (pct (value_counts (map rideable_type t)) ''electric_bike'')]
   \<and> (Some ''member'' \<notin> set (map member_casual t) \<longrightarrow>
        breakdowns t ! 1 = MetricCount ''Total Members'' 0
        \<and> breakdowns t ! 3
            = MetricValue ''Member Percentage''
                (if dropna (map member_casual t) = [] then None else Some 0))
   \<and> (Some ''casual'' \<notin> set (map member_casual t) \<longrightarrow>
        breakdowns t ! 2 = MetricCount ''Total Casual Users'' 0)
   \<and> (Some ''classic_bike'' \<notin> set (map rideable_type t) \<longrightarrow>
        breakdowns t ! 5 = MetricCount ''Classic Bike Rides'' 0)
   \<and> (Some ''electric_bike'' \<notin> set (map rideable_type t) \<longrightarrow>
        breakdowns t ! 6 = MetricCount ''Electric Bike Rides'' 0
        \<and> breakdowns t ! 7
            = MetricValue ''Electric Bike %''
                (if dropna (map rideable_type t) = [] then None else Some 0))
   \<and> (Some key \<notin> set column \<longrightarrow>
        series_get (value_counts column) key 0 = 0
        \<and> pct (value_counts column) key = (if dropna column = [] then None else Some 0))
   \<and> (Some k \<in> set column \<longrightarrow>
        series_get (value_counts column) k 0 = count_list column (Some k)
        \<and> pct (value_counts column) k
            = Some (of_nat (count_list column (Some k)) / of_nat (length (dropna column)) * 100))
   \<and> series_sum (value_counts column) = length (dropna column)
   \<and> (\<exists>err rest. fst (run_page parse UserAnalysis 0 [RawFrame t]) = (err, breakdowns t @ rest))
   \<and> (\<exists>err rest. fst (run_page2 parse AdditionalInsights 0 [RawFrame t]) = (err, breakdowns t @ rest))"
proof (intro conjI impI)
  show b: "breakdowns t =
     [Ranking (value_counts (map member_casual t)),
      MetricCount ''Total Members'' (count_list (map member_casual t) (Some ''member'')),
      MetricCount ''Total Casual Users'' (count_list (map member_casual t) (Some ''casual'')),
      MetricValue ''Member Percentage'' (pct (value_counts (map member_casual t)) ''member''),
      Ranking (value_counts (map rideable_type t)),
      MetricCount ''Classic Bike Rides'' (count_list (map rideable_type t) (Some ''classic_bike'')),
      MetricCount ''Electric Bike Rides'' (count_list (map rideable_type t) (Some ''electric_bike'')),
      MetricValue ''Electric Bike %'' (pct (value_counts (map rideable_type t)) ''electric_bike'')]"
    by (simp add: breakdowns_def Let_def series_get_value_counts count_list_dropna)
  have z: "\<And>(c :: string option list) q. Some q \<notin> set c \<Longrightarrow>
      pct (value_counts c) q = (if dropna c = [] then None else Some 0)"
    by (simp add: pct_def series_sum_value_counts series_get_value_counts count_list_dropna
        count_list_0_iff)
  {
    assume a: "Some ''member'' \<notin> set (map member_casual t)"
    then have c: "count_list (map member_casual t) (Some ''member'') = 0"
      by (simp only: count_list_0_iff not_False_eq_True)
    show "breakdowns t ! 1 = MetricCount ''Total Members'' 0"
      unfolding b by (simp add: c)
    show "breakdowns t ! 3 = MetricValue ''Member Percentage''
        (if dropna (map member_casual t) = [] then None else Some 0)"
      unfolding b using z [OF a] by simp
  }
  {
    assume a: "Some ''casual'' \<notin> set (map member_casual t)"
    then have c: "count_list (map member_casual t) (Some ''casual'') = 0"
      by (simp only: count_list_0_iff not_False_eq_True)
    show "breakdowns t ! 2 = MetricCount ''Total Casual Users'' 0"
      unfolding b by (simp add: c)
  }
  {
    assume a: "Some ''classic_bike'' \<notin> set (map rideable_type t)"
    then have c: "count_list (map rideable_type t) (Some ''classic_bike'') = 0"
      by (simp only: count_list_0_iff not_False_eq_True)
    show "breakdowns t ! 5 = MetricCount ''Classic Bike Rides'' 0"
      unfolding b by (simp add: c)
  }
  {
    assume a: "Some ''electric_bike'' \<notin> set (map rideable_type t)"
    then have c: "count_list (map rideable_type t) (Some ''electric_bike'') = 0"
      by (simp only: count_list_0_iff not_False_eq_True)
    show "breakdowns t ! 6 = MetricCount ''Electric Bike Rides'' 0"
      unfolding b by (simp add: c)
    show "breakdowns t ! 7 = MetricValue ''Electric Bike %''
        (if dropna (map rideable_type t) = [] then None else Some 0)"
      unfolding b using z [OF a] by simp
  }
  {
    assume a: "Some key \<notin> set column"
    then show "series_get (value_counts column) key 0 = 0"
      by (simp add: series_get_value_counts count_list_dropna count_list_0_iff)
    show "pct (value_counts column) key = (if dropna column = [] then None else Some 0)"
      using a
      by (simp add: pct_def series_sum_value_counts series_get_value_counts count_list_dropna
          count_list_0_iff)
  }
  {
    assume a: "Some k \<in> set column"
    show "series_get (value_counts column) k 0 = count_list column (Some k)"
      by (simp add: series_get_value_counts count_list_dropna)
    have "dropna column \<noteq> []"
      using a unfolding dropna_eq_Nil by blast
    then show "pct (value_counts column) k
        = Some (of_nat (count_list column (Some k)) / of_nat (length (dropna column)) * 100)"
      by (rule pct_value_counts)
  }
  show "series_sum (value_counts column) = length (dropna column)"
    by (rule series_sum_value_counts)
  show "\<exists>err rest. fst (run_page parse UserAnalysis 0 [RawFrame t]) = (err, breakdowns t @ rest)"
    by (simp add: run_page_def user_analysis_def read_raw_def df_copy_def alloc_def Let_def
        split: sum.splits prod.splits)
  show "\<exists>err rest. fst (run_page2 parse AdditionalInsights 0 [RawFrame t]) = (err, breakdowns t @ rest)"
    by (simp add: run_page2_def additional_insights_def read_raw_def df_copy_def alloc_def Let_def
        split: sum.splits prod.splits)
qed


theorem C7_absent_category_witness:
  "breakdowns docked_table =
     [Ranking [],
      MetricCount ''Total Members'' 0,
      MetricCount ''Total Casual Users'' 0,
      MetricValue ''Member Percentage'' None,
      Ranking [(''docked_bike'', 1)],
      MetricCount ''Classic Bike Rides'' 0,
      MetricCount ''Electric Bike Rides'' 0,
      MetricValue ''Electric Bike %'' (Some 0)]
   \<and> series_get (value_counts (map rideable_type docked_table)) ''docked_bike'' 0 = 1
   \<and> pct (value_counts (map rideable_type docked_table)) ''docked_bike'' = Some 100"
proof -
  have m: "map member_casual docked_table = [None]"
    and r: "map rideable_type docked_table = [Some ''docked_bike'']"
    by (simp_all add: docked_table_def mk_trip_def)
  have h: "Some ''member'' \<notin> set (map member_casual docked_table)"
    "Some ''casual'' \<notin> set (map member_casual docked_table)"
    "Some ''classic_bike'' \<notin> set (map rideable_type docked_table)"
    "Some ''electric_bike'' \<notin> set (map rideable_type docked_table)"
    "Some ''docked_bike'' \<in> set (map rideable_type docked_table)"
    unfolding m r by simp_all
  have v: "value_counts (map member_casual docked_table) = []"
    "value_counts (map rideable_type docked_table) = [(''docked_bike'', 1)]"
    unfolding m r by (simp_all add: value_counts_def count_values_def)
  note t = C7_absent_category [where t = docked_table and key = "''electric_bike''"
      and column = "map rideable_type docked_table" and k = "''docked_bike''"]
  have b: "breakdowns docked_table ! 1 = MetricCount ''Total Members'' 0"
    "breakdowns docked_table ! 2 = MetricCount ''Total Casual Users'' 0"
    "breakdowns docked_table ! 3 = MetricValue ''Member Percentage'' None"
    "breakdowns docked_table ! 5 = MetricCount ''Classic Bike Rides'' 0"
    "breakdowns docked_table ! 6 = MetricCount ''Electric Bike Rides'' 0"
    "breakdowns docked_table ! 7 = MetricValue ''Electric Bike %'' (Some 0)"
    "series_get (value_counts (map rideable_type docked_table)) ''docked_bike'' 0 = 1"
    "pct (value_counts (map rideable_type docked_table)) ''docked_bike'' = Some 100"
  proof -
    have "breakdowns docked_table ! 1 = MetricCount ''Total Members'' 0
        \<and> breakdowns docked_table ! 3 = MetricValue ''Member Percentage''
            (if dropna (map member_casual docked_table) = [] then None else Some 0)"
      using t h(1) by blast
    then show "breakdowns docked_table ! 1 = MetricCount ''Total Members'' 0"
      "breakdowns docked_table ! 3 = MetricValue ''Member Percentage'' None"
      by (simp_all add: m)
    show "breakdowns docked_table ! 2 = MetricCount ''Total Casual Users'' 0"
      using t h(2) by blast
    show "breakdowns docked_table ! 5 = MetricCount ''Classic Bike Rides'' 0"
      using t h(3) by blast
    have "breakdowns docked_table ! 6 = MetricCount ''Electric Bike Rides'' 0
        \<and> breakdowns docked_table ! 7 = MetricValue ''Electric Bike %''
            (if dropna (map rideable_type docked_table) = [] then None else Some 0)"
      using t h(4) by blast
    then show "breakdowns docked_table ! 6 = MetricCount ''Electric Bike Rides'' 0"
      "breakdowns docked_table ! 7 = MetricValue ''Electric Bike %'' (Some 0)"
      by (simp_all add: r)
    have "series_get (value_counts (map rideable_type docked_table)) ''docked_bike'' 0
          = count_list (map rideable_type docked_table) (Some ''docked_bike'')
        \<and> pct (value_counts (map rideable_type docked_table)) ''docked_bike''
          = Some (of_nat (count_list (map rideable_type docked_table) (Some ''docked_bike''))
              / of_nat (length (dropna (map rideable_type docked_table))) * 100)"
      using t h(5) by blast
    then show "series_get (value_counts (map rideable_type docked_table)) ''docked_bike'' 0 = 1"
      "pct (value_counts (map rideable_type docked_table)) ''docked_bike'' = Some 100"
      by (simp_all add: r)
  qed
  have l: "breakdowns docked_table =
     [Ranking (value_counts (map member_casual docked_table)),
      breakdowns docked_table ! 1, breakdowns docked_table ! 2, breakdowns docked_table ! 3,
      Ranking (value_counts (map rideable_type docked_table)),
      breakdowns docked_table ! 5, breakdowns docked_table ! 6, breakdowns docked_table ! 7]"
    using t by simp
  have "breakdowns docked_table =
     [Ranking [],
      MetricCount ''Total Members'' 0,
      MetricCount ''Total Casual Users'' 0,
      MetricValue ''Member Percentage'' None,
      Ranking [(''docked_bike'', 1)],
      MetricCount ''Classic Bike Rides'' 0,
      MetricCount ''Electric Bike Rides'' 0,
      MetricValue ''Electric Bike %'' (Some 0)]"
    using l unfolding b(1-6) v by simp
  then show ?thesis
    using b(7,8) by simp
qed

text \<open>
  C8 fails for the table without rows: there is no category, so the percentages sum to
  0 and not to 100, and the percentage of a queried category is NaN.
\<close>

theorem C8_empty_table_counterexample:
  "sum_percentages (value_counts ([] :: string option list)) = Some 0
   \<and> pct (value_counts ([] :: string option list)) ''member'' = None"
  by (simp add: sum_percentages_def percentages_def value_counts_def count_values_def
      pct_def series_sum_def)

text \<open>
  C8, amended. For every table with at least one row in which no row has a missing cell
  in the categorical column: the counts of the breakdown sum to the number of rows,
  each count is the number of rows of its category, each percentage is
  100 * count / number of rows, and the percentages of all categories sum to 100
  (exactly, in rational arithmetic).
\<close>

theorem C8_breakdown_totals:
  assumes "None \<notin> set column" and "column \<noteq> []"
  shows "series_sum (value_counts column) = length column
    \<and> (\<forall>k. pct (value_counts column) k
           = Some (100 * of_nat (series_get (value_counts column) k 0) / of_nat (length column)))
    \<and> (\<forall>k. series_get (value_counts column) k 0 = count_list column (Some k))
    \<and> sum_percentages (value_counts column) = Some 100"
proof -
  have l: "length (dropna column) = length column"
    using assms(1) by (rule length_dropna_no_None)
  then have ne: "dropna column \<noteq> []"
    using assms(2) by auto
  show ?thesis
    using l ne
    by (simp add: series_sum_value_counts pct_value_counts series_get_value_counts
        count_list_dropna sum_percentages_value_counts)
qed

theorem C8_breakdown_totals_witness:
  "series_sum (value_counts [Some ''member'', Some ''member'', Some ''casual'']) = 3
   \<and> pct (value_counts [Some ''member'', Some ''member'', Some ''casual'']) ''member'' = Some (200 / 3)
   \<and> pct (value_counts [Some ''member'', Some ''member'', Some ''casual'']) ''casual'' = Some (100 / 3)
   \<and> sum_percentages (value_counts [Some ''member'', Some ''member'', Some ''casual'']) = Some 100"
proof -
  have h: "None \<notin> set [Some ''member'', Some ''member'', Some ''casual'']"
    "[Some ''member'', Some ''member'', Some ''casual''] \<noteq> []"
    by simp_all
  show ?thesis
    using C8_breakdown_totals [OF h] by simp
qed

section \<open>Inclusion-window filter: results\<close>

lemma getitem_mask_map: "getitem_mask df (map P df) = filter P df"
  unfolding getitem_mask_def by (induction df) auto

lemma df_filtered_filter:
  "df_filtered low high df =
     filter (\<lambda>r. case ride_duration_min r of None \<Rightarrow> False | Some d \<Rightarrow> low \<le> d \<and> d \<le> high) df"
  unfolding df_filtered_def between_def map_map comp_def by (rule getitem_mask_map)

lemma in_df_filtered:
  "r \<in> set (df_filtered low high df) \<longleftrightarrow>
     r \<in> set df \<and> (\<exists>d. ride_duration_min r = Some d \<and> low \<le> d \<and> d \<le> high)"
  by (auto simp: df_filtered_filter split: option.splits)

text \<open>
  C2. For every table with a duration column and all bounds, the filter
  \<^verbatim>\<open>df_temp[df_temp['ride_duration_min'].between(low, high)]\<close> keeps exactly the rows
  whose duration \<open>d\<close> satisfies \<open>low \<le> d \<le> high\<close>, in their order: every row it returns
  satisfies the bounds, and a row whose duration equals \<open>low\<close> or \<open>high\<close> is kept. A row
  whose duration is NaN is not kept.
\<close>

theorem C2_inclusion_window:
  "df_filtered low high df = filter (\<lambda>r. \<exists>d. ride_duration_min r = Some d \<and> low \<le> d \<and> d \<le> high) df
   \<and> (\<forall>r \<in> set (df_filtered low high df). \<exists>d. ride_duration_min r = Some d \<and> low \<le> d \<and> d \<le> high)
   \<and> (\<forall>r \<in> set df. low \<le> high \<and> (ride_duration_min r = Some low \<or> ride_duration_min r = Some high)
         \<longrightarrow> r \<in> set (df_filtered low high df))"
proof (intro conjI)
  have "(\<lambda>r. case ride_duration_min r of None \<Rightarrow> False | Some d \<Rightarrow> low \<le> d \<and> d \<le> high)
      = (\<lambda>r. \<exists>d. ride_duration_min r = Some d \<and> low \<le> d \<and> d \<le> high)"
    by (auto split: option.splits)
  then show "df_filtered low high df
      = filter (\<lambda>r. \<exists>d. ride_duration_min r = Some d \<and> low \<le> d \<and> d \<le> high) df"
    unfolding df_filtered_filter by (rule arg_cong)
  show "\<forall>r \<in> set (df_filtered low high df). \<exists>d. ride_duration_min r = Some d \<and> low \<le> d \<and> d \<le> high"
    by (simp add: in_df_filtered)
  show "\<forall>r \<in> set df. low \<le> high \<and> (ride_duration_min r = Some low \<or> ride_duration_min r = Some high)
         \<longrightarrow> r \<in> set (df_filtered low high df)"
    by (auto simp: in_df_filtered)
qed

section \<open>Duration derivation: results\<close>

lemma to_datetime_ok:
  "(\<forall>s. Some s \<in> set cs \<longrightarrow> parse s \<noteq> None) \<Longrightarrow>
   to_datetime parse cs = Inr (map (\<lambda>c. Option.bind c parse) cs)"
  by (induction parse cs rule: to_datetime.induct) auto

lemma to_datetime_bad:
  "Some s \<in> set cs \<Longrightarrow> parse s = None \<Longrightarrow> to_datetime parse cs = Inl ParseError"
  by (induction parse cs rule: to_datetime.induct) (auto split: sum.splits option.splits)

lemma to_datetime_cases:
  "to_datetime parse cs = Inl ParseError \<and> (\<exists>s. Some s \<in> set cs \<and> parse s = None)
   \<or> to_datetime parse cs = Inr (map (\<lambda>c. Option.bind c parse) cs)
      \<and> (\<forall>s. Some s \<in> set cs \<longrightarrow> parse s \<noteq> None)"
proof (cases "\<forall>s. Some s \<in> set cs \<longrightarrow> parse s \<noteq> None")
  case True
  then show ?thesis by (simp add: to_datetime_ok)
next
  case False
  then show ?thesis by (auto simp: to_datetime_bad)
qed

lemma zip_map_same: "zip xs (map f xs) = map (\<lambda>x. (x, f x)) xs"
  by (induction xs) auto

lemma zip_maps_same: "zip (map f xs) (map g xs) = map (\<lambda>x. (f x, g x)) xs"
  by (induction xs) auto

lemma zip_map_map_same: "zip xs (zip (map f xs) (map g xs)) = map (\<lambda>x. (x, f x, g x)) xs"
  by (induction xs) auto

lemma derive_duration_ok:
  assumes "\<forall>r \<in> set df. parses parse (started_at r) \<and> parses parse (ended_at r)"
  shows "derive_duration parse df = Inr (map (timed_row parse) df)"
proof -
  have p: "parse s \<noteq> None" if "r \<in> set df" "started_at r = Some s \<or> ended_at r = Some s" for r s
    using assms that by (force simp: parses_def)
  have s: "to_datetime parse (map started_at df) = Inr (map (\<lambda>c. Option.bind c parse) (map started_at df))"
    by (rule to_datetime_ok) (use p in force)
  have e: "to_datetime parse (map ended_at df) = Inr (map (\<lambda>c. Option.bind c parse) (map ended_at df))"
    by (rule to_datetime_ok) (use p in force)
  show ?thesis
    unfolding derive_duration_def s e
    by (simp add: zip_map_map_same zip_map_same comp_def Let_def set_times_def timed_row_def)
qed

lemma derive_duration_bad:
  assumes "r \<in> set df" and "\<not> (parses parse (started_at r) \<and> parses parse (ended_at r))"
  shows "derive_duration parse df = Inl ParseError"
proof -
  from assms(2) consider s where "started_at r = Some s" "parse s = None"
    | s where "ended_at r = Some s" "parse s = None"
    by (auto simp: parses_def split: option.splits)
  then show ?thesis
  proof cases
    case 1
    then have "Some s \<in> set (map started_at df)"
      using assms(1) by force
    then have "to_datetime parse (map started_at df) = Inl ParseError"
      using 1(2) by (rule to_datetime_bad)
    then show ?thesis
      by (simp add: derive_duration_def)
  next
    case 2
    then have "Some s \<in> set (map ended_at df)"
      using assms(1) by force
    then have "to_datetime parse (map ended_at df) = Inl ParseError"
      using 2(2) by (rule to_datetime_bad)
    then show ?thesis
      using to_datetime_cases [of parse "map started_at df"]
      by (auto simp: derive_duration_def)
  qed
qed

lemma timed_row_simps [simp]:
  "ride_id (timed_row parse r) = ride_id r"
  "started_at (timed_row parse r) = Option.bind (started_at r) parse"
  "ended_at (timed_row parse r) = Option.bind (ended_at r) parse"
  "ride_duration_min (timed_row parse r)
     = div_scalar (total_seconds (sub_ts (Option.bind (ended_at r) parse) (Option.bind (started_at r) parse))) 60"
  by (simp_all add: timed_row_def Let_def add_duration_def set_times_def trip.defs timed.defs)

lemma derive_dated_ok:
  assumes "\<forall>r \<in> set df. parses parse (started_at r) \<and> parses parse (ended_at r)"
  shows "derive_dated parse df = Inr (map (dated_row parse) df)"
  unfolding derive_dated_def derive_duration_ok [OF assms]
  by (simp add: zip_maps_same comp_def dated_row_def)

lemma derive_dated_bad:
  assumes "r \<in> set df" and "\<not> (parses parse (started_at r) \<and> parses parse (ended_at r))"
  shows "derive_dated parse df = Inl ParseError"
  unfolding derive_dated_def derive_duration_bad [OF assms] by simp

lemma dated_row_simps [simp]:
  "ride_id (dated_row parse r) = ride_id r"
  "started_at (dated_row parse r) = Option.bind (started_at r) parse"
  "ended_at (dated_row parse r) = Option.bind (ended_at r) parse"
  "ride_duration_min (dated_row parse r)
     = div_scalar (total_seconds (sub_ts (Option.bind (ended_at r) parse) (Option.bind (started_at r) parse))) 60"
  "date (dated_row parse r) = dt_date (Option.bind (started_at r) parse)"
  by (simp_all add: dated_row_def add_date_def timed.defs dated.defs timed_row_def Let_def add_duration_def set_times_def trip.defs)

lemma duration_formula:
  "div_scalar (total_seconds (sub_ts e s)) 60
     = (case e of None \<Rightarrow> None
        | Some a \<Rightarrow> (case s of None \<Rightarrow> None | Some b \<Rightarrow> Some (of_int (a - b) / 1000000000 / 60)))"
  by (simp add: div_scalar_def total_seconds_def sub_ts_def split: option.splits)

theorem C2_inclusion_window_witness:
  "map ride_id (df_filtered 1 120 (map (timed_row sample_parse) boundary_table)) = [Some ''B1'', Some ''B2'']
   \<and> map ride_duration_min (map (timed_row sample_parse) boundary_table) = [Some 1, Some 120, Some 130, None]"
  using C2_inclusion_window [of 1 120 "map (timed_row sample_parse) boundary_table"]
  by (simp add: sample_defs duration_formula)

text \<open>
  C9. If every timestamp cell of the table can be converted, the derivation succeeds and
  the duration of each row is (end - start) in seconds divided by 60, NaN when a
  timestamp is missing. If some cell holds a text that the parser rejects, the
  derivation raises ParseError: there is no table of durations, the daily trend page of
  either dashboard ends with that exception and renders nothing, and the user analysis
  page of either dashboard ends with it after its breakdowns, without any duration.
\<close>

theorem C9_duration_derivation:
  "(if \<forall>r \<in> set df. parses parse (started_at r) \<and> parses parse (ended_at r)
    then (\<exists>t. derive_duration parse df = Inr t
            \<and> map ride_duration_min t =
                map (\<lambda>r. case Option.bind (ended_at r) parse of
                            None \<Rightarrow> None
                          | Some e \<Rightarrow>
                              (case Option.bind (started_at r) parse of
                                 None \<Rightarrow> None
                               | Some s \<Rightarrow> Some (of_int (e - s) / 1000000000 / 60))) df)
       \<and> (\<exists>t. derive_dated parse df = Inr t
            \<and> map ride_duration_min t =
                map (\<lambda>r. case Option.bind (ended_at r) parse of
                            None \<Rightarrow> None
                          | Some e \<Rightarrow>
                              (case Option.bind (started_at r) parse of
                                 None \<Rightarrow> None
                               | Some s \<Rightarrow> Some (of_int (e - s) / 1000000000 / 60))) df)
    else derive_duration parse df = Inl ParseError
       \<and> derive_dated parse df = Inl ParseError
       \<and> fst (run_page parse DailyTrends 0 [RawFrame df]) = (Some ParseError, [])
       \<and> fst (run_page2 parse DualAxisLineChart 0 [RawFrame df]) = (Some ParseError, [])
       \<and> fst (run_page parse UserAnalysis 0 [RawFrame df]) = (Some ParseError, breakdowns df)
       \<and> fst (run_page2 parse AdditionalInsights 0 [RawFrame df]) = (Some ParseError, breakdowns df))"
proof (cases "\<forall>r \<in> set df. parses parse (started_at r) \<and> parses parse (ended_at r)")
  case True
  show ?thesis
    using True
    by (simp add: derive_duration_ok derive_dated_ok comp_def duration_formula)
next
  case False
  then obtain r where r: "r \<in> set df" "\<not> (parses parse (started_at r) \<and> parses parse (ended_at r))"
    by blast
  have d: "derive_dated parse df = Inl ParseError"
    using r by (rule derive_dated_bad)
  have t: "derive_duration parse df = Inl ParseError"
    using r by (rule derive_duration_bad)
  have "fst (run_page parse UserAnalysis 0 [RawFrame df]) = (Some ParseError, breakdowns df)"
    by (simp add: run_page_def user_analysis_def read_raw_def df_copy_def alloc_def
        assign_duration_def t)
  moreover have "fst (run_page2 parse AdditionalInsights 0 [RawFrame df]) = (Some ParseError, breakdowns df)"
    by (simp add: run_page2_def additional_insights_def read_raw_def df_copy_def alloc_def
        assign_duration_def t)
  moreover have "fst (run_page parse DailyTrends 0 [RawFrame df]) = (Some ParseError, [])"
    by (simp add: run_page_def daily_trends_def df_copy_def alloc_def assign_dated_def d)
  moreover have "fst (run_page2 parse DualAxisLineChart 0 [RawFrame df]) = (Some ParseError, [])"
    by (simp add: run_page2_def dual_axis_line_chart_def df_copy_def alloc_def assign_dated_def d)
  ultimately show ?thesis
    using False d t by simp
qed

theorem C9_duration_derivation_witness:
  "map_sum id (map ride_duration_min) (derive_duration sample_parse boundary_table)
     = Inr [Some 1, Some 120, Some 130, None]
   \<and> derive_duration sample_parse broken_table = Inl ParseError
   \<and> fst (run_page sample_parse DailyTrends 0 [RawFrame broken_table]) = (Some ParseError, [])"
proof -
  have a: "\<forall>r \<in> set boundary_table. parses sample_parse (started_at r) \<and> parses sample_parse (ended_at r)"
    by (simp add: sample_defs parses_def)
  have b: "\<not> (\<forall>r \<in> set broken_table. parses sample_parse (started_at r) \<and> parses sample_parse (ended_at r))"
    by (simp add: sample_defs parses_def)
  have c: "map (\<lambda>r. case Option.bind (ended_at r) sample_parse of
                            None \<Rightarrow> None
                          | Some e \<Rightarrow>
                              (case Option.bind (started_at r) sample_parse of
                                 None \<Rightarrow> None
                               | Some s \<Rightarrow> Some (of_int (e - s) / 1000000000 / 60))) boundary_table
        = [Some 1, Some 120, Some 130, None :: rat option]"
    by (simp add: sample_defs)
  show ?thesis
    using C9_duration_derivation [of boundary_table sample_parse]
      C9_duration_derivation [of broken_table sample_parse]
    unfolding c using a b by auto
qed

section \<open>Daily aggregator: results\<close>

lemma derive_dated_cases:
  "derive_dated parse df = Inl ParseError
   \<or> derive_dated parse df = Inr (map (dated_row parse) df)"
  using derive_dated_ok [of df parse] derive_dated_bad [of _ df parse] by blast

lemma derive_dated_Inr: "derive_dated parse df = Inr t \<Longrightarrow> t = map (dated_row parse) df"
  using derive_dated_cases [of parse df] by auto

lemma dated_row_has_date:
  "ride_duration_min (dated_row parse r) = Some d \<Longrightarrow> date (dated_row parse r) \<noteq> None"
  by (auto simp: duration_formula dt_date_def split: option.splits)

lemma Some_in_image: "Some d \<in> f ` A \<longleftrightarrow> (\<exists>r \<in> A. f r = Some d)"
  by force

lemma group_keys_set:
  "set (sort (remdups (dropna (map date df)))) = {d. \<exists>r \<in> set df. date r = Some d}"
  by (auto simp: set_dropna Some_in_image)

lemma group_keys_sorted: "sorted_wrt (<) (sort (remdups (dropna (map date df))))"
  by (simp add: strict_sorted_iff)

lemma map_group_date: "map group_date (daily_stats df) = sort (remdups (dropna (map date df)))"
  by (simp add: daily_stats_def groupby_date_def comp_def)

lemma series_count_filter: "series_count (map f xs) = length (filter (\<lambda>x. f x \<noteq> None) xs)"
  by (simp add: series_count_def dropna_map_filter)

lemma in_daily_stats:
  "e \<in> set (daily_stats df) \<longleftrightarrow>
     (\<exists>r \<in> set df. date r = Some (group_date e))
     \<and> daily_rides e = length (filter (\<lambda>r. date r = Some (group_date e) \<and> ride_id r \<noteq> None) df)
     \<and> avg_duration e = series_mean (map ride_duration_min (filter (\<lambda>r. date r = Some (group_date e)) df))"
  by (cases e) (auto simp: daily_stats_def groupby_date_def set_dropna series_count_filter conj_commute Some_in_image)

lemma length_filter_disjoint:
  "(\<And>x. x \<in> set xs \<Longrightarrow> \<not> (P x \<and> Q x)) \<Longrightarrow>
   length (filter P xs) + length (filter Q xs) = length (filter (\<lambda>x. P x \<or> Q x) xs)"
  by (induction xs) auto

lemma sum_group_counts:
  "distinct ks \<Longrightarrow>
   (\<Sum>k\<leftarrow>ks. length (filter (\<lambda>r. f r = Some k \<and> P r) xs))
     = length (filter (\<lambda>r. (\<exists>k \<in> set ks. f r = Some k) \<and> P r) xs)"
proof (induction ks)
  case Nil
  then show ?case by simp
next
  case (Cons k ks)
  have "length (filter (\<lambda>r. f r = Some k \<and> P r) xs)
        + length (filter (\<lambda>r. (\<exists>k \<in> set ks. f r = Some k) \<and> P r) xs)
      = length (filter (\<lambda>r. (f r = Some k \<and> P r) \<or> ((\<exists>k \<in> set ks. f r = Some k) \<and> P r)) xs)"
    using Cons.prems by (intro length_filter_disjoint) auto
  also have "\<dots> = length (filter (\<lambda>r. (\<exists>k' \<in> set (k # ks). f r = Some k') \<and> P r) xs)"
    by (rule arg_cong [where f = length], rule filter_cong) auto
  finally show ?case
    using Cons by simp
qed

lemma sum_daily_rides:
  "sum_list (map daily_rides (daily_stats df))
     = length (filter (\<lambda>r. date r \<noteq> None \<and> ride_id r \<noteq> None) df)"
proof -
  let ?ks = "sort (remdups (dropna (map date df)))"
  have "map daily_rides (daily_stats df)
      = map (\<lambda>k. length (filter (\<lambda>r. date r = Some k \<and> ride_id r \<noteq> None) df)) ?ks"
    by (simp add: daily_stats_def groupby_date_def comp_def series_count_filter conj_commute)
  moreover have "distinct ?ks" by simp
  ultimately have "sum_list (map daily_rides (daily_stats df))
      = length (filter (\<lambda>r. (\<exists>k \<in> set ?ks. date r = Some k) \<and> ride_id r \<noteq> None) df)"
    by (simp add: sum_group_counts)
  also have "\<dots> = length (filter (\<lambda>r. date r \<noteq> None \<and> ride_id r \<noteq> None) df)"
    by (rule arg_cong [where f = length], rule filter_cong) (auto simp: set_dropna Some_in_image)
  finally show ?thesis .
qed


lemma filtered_rows_dated:
  assumes "derive_dated parse df = Inr df_temp" and "r \<in> set (df_filtered low high df_temp)"
  shows "date r \<noteq> None"
proof -
  have "df_temp = map (dated_row parse) df"
    using assms(1) by (rule derive_dated_Inr)
  then obtain x d where "r = dated_row parse x" "ride_duration_min r = Some d"
    using assms(2) by (auto simp: in_df_filtered)
  then show ?thesis
    using dated_row_has_date by blast
qed

lemma sample_table_parses:
  "\<forall>r \<in> set sample_table. parses sample_parse (started_at r) \<and> parses sample_parse (ended_at r)"
  by (simp add: sample_defs parses_def)

lemma sample_durations:
  "map ride_duration_min (map (dated_row sample_parse) sample_table) = [Some 5, Some 50, Some 130]"
  "map date (map (dated_row sample_parse) sample_table) = [Some 18993, Some 18993, Some 18993]"
  "map ride_id (map (dated_row sample_parse) sample_table) = [Some ''A1'', Some ''A2'', Some ''A3'']"
  by (simp_all add: sample_defs duration_formula dt_date_def)

text \<open>
  C1 fails for a ride whose \<^verbatim>\<open>ride_id\<close> cell is missing: the ride passes the filter
  (1, 120), its date has an entry, but \<^verbatim>\<open>'ride_id': 'count'\<close> does not count it. The
  entry has the count 0 and the counts sum to 0, while the filtered table has one row.
\<close>

theorem C1_missing_ride_id_counterexample:
  "map_sum id (\<lambda>t. (map daily_rides (daily_stats (df_filtered 1 120 t)), length (df_filtered 1 120 t)))
     (derive_dated sample_parse anonymous_table) = Inr ([0], 1)"
  by (simp add: sample_defs derive_defs aggregate_defs)

text \<open>
  C1, amended. For every table that the filter returns for a derived table: the daily
  aggregator has one entry for each date of the table and no other entry, every row has
  a date, the entries are in strictly ascending order of their dates, and the sum of
  the ride counts is the number of rows whose \<^verbatim>\<open>ride_id\<close> is not missing. When no
  \<^verbatim>\<open>ride_id\<close> of the table is missing, the sum is the number of rows of the filtered
  table and every entry counts at least one ride.
\<close>

theorem C1_daily_aggregation:
  assumes "derive_dated parse df = Inr df_temp"
  shows "set (map group_date (daily_stats (df_filtered low high df_temp)))
           = {d. \<exists>r \<in> set (df_filtered low high df_temp). date r = Some d}
     \<and> (\<forall>r \<in> set (df_filtered low high df_temp). date r \<noteq> None)
     \<and> sorted_wrt (<) (map group_date (daily_stats (df_filtered low high df_temp)))
     \<and> sum_list (map daily_rides (daily_stats (df_filtered low high df_temp)))
         = length (filter (\<lambda>r. ride_id r \<noteq> None) (df_filtered low high df_temp))
     \<and> ((\<forall>r \<in> set df. ride_id r \<noteq> None) \<longrightarrow>
          sum_list (map daily_rides (daily_stats (df_filtered low high df_temp)))
            = length (df_filtered low high df_temp)
          \<and> (\<forall>e \<in> set (daily_stats (df_filtered low high df_temp)). 0 < daily_rides e))"
proof (intro conjI impI)
  let ?t = "df_filtered low high df_temp"
  show "set (map group_date (daily_stats ?t)) = {d. \<exists>r \<in> set ?t. date r = Some d}"
    unfolding map_group_date by (rule group_keys_set)
  show dated: "\<forall>r \<in> set ?t. date r \<noteq> None"
  proof
    fix r assume "r \<in> set ?t"
    with assms show "date r \<noteq> None" by (rule filtered_rows_dated)
  qed
  show "sorted_wrt (<) (map group_date (daily_stats ?t))"
    unfolding map_group_date by (rule group_keys_sorted)
  have "filter (\<lambda>r. date r \<noteq> None \<and> ride_id r \<noteq> None) ?t = filter (\<lambda>r. ride_id r \<noteq> None) ?t"
    by (rule filter_cong) (simp_all add: dated)
  then show sum: "sum_list (map daily_rides (daily_stats ?t)) = length (filter (\<lambda>r. ride_id r \<noteq> None) ?t)"
    unfolding sum_daily_rides by simp
  assume a: "\<forall>r \<in> set df. ride_id r \<noteq> None"
  have "df_temp = map (dated_row parse) df"
    using assms by (rule derive_dated_Inr)
  then have ids: "\<forall>r \<in> set ?t. ride_id r \<noteq> None"
    using a by (auto simp: in_df_filtered)
  then have "filter (\<lambda>r. ride_id r \<noteq> None) ?t = ?t"
    by (simp only: filter_True)
  then show "sum_list (map daily_rides (daily_stats ?t)) = length ?t"
    unfolding sum by simp
  show "\<forall>e \<in> set (daily_stats ?t). 0 < daily_rides e"
  proof
    fix e assume "e \<in> set (daily_stats ?t)"
    then obtain r where r: "r \<in> set ?t" "date r = Some (group_date e)"
      and c: "daily_rides e = length (filter (\<lambda>r. date r = Some (group_date e) \<and> ride_id r \<noteq> None) ?t)"
      unfolding in_daily_stats by blast
    have "r \<in> set (filter (\<lambda>r. date r = Some (group_date e) \<and> ride_id r \<noteq> None) ?t)"
      using r ids by simp
    then show "0 < daily_rides e"
      unfolding c by (rule length_pos_if_in_set)
  qed
qed

theorem C1_daily_aggregation_witness:
  "map group_date (daily_stats (df_filtered 1 120 (map (dated_row sample_parse) sample_table))) = [18993]
   \<and> sum_list (map daily_rides (daily_stats (df_filtered 1 120 (map (dated_row sample_parse) sample_table)))) = 2
   \<and> length (df_filtered 1 120 (map (dated_row sample_parse) sample_table)) = 2"
proof -
  have h: "derive_dated sample_parse sample_table = Inr (map (dated_row sample_parse) sample_table)"
    using sample_table_parses by (rule derive_dated_ok)
  have i: "\<forall>r \<in> set sample_table. ride_id r \<noteq> None"
    by (simp add: sample_defs)
  have l: "length (df_filtered 1 120 (map (dated_row sample_parse) sample_table)) = 2"
    using sample_durations by (simp add: df_filtered_filter sample_table_def)
  have k: "map group_date (daily_stats (df_filtered 1 120 (map (dated_row sample_parse) sample_table))) = [18993]"
    using sample_durations by (simp add: map_group_date df_filtered_filter sample_table_def)
  show ?thesis
    using C1_daily_aggregation [OF h, of 1 120] i l k by simp
qed

section \<open>The daily trend pages\<close>

lemma runner_box_simps [simp]:
  "runner_box None = []"
  "runner_box (Some e) = [StException e]"
  by (simp_all add: runner_box_def)

lemma daily_trends_page:
  "derive_dated parse df = Inr df_temp \<Longrightarrow>
   run_page parse DailyTrends 0 [RawFrame df]
     = ((None, [Daily (daily_stats (df_filtered 1 120 df_temp))]), [RawFrame df, DatedFrame df_temp])"
  by (simp add: run_page_def daily_trends_def df_copy_def alloc_def assign_dated_def)

lemma dual_axis_page:
  "derive_dated parse df = Inr df_temp \<Longrightarrow>
   run_page2 parse DualAxisLineChart 0 [RawFrame df]
     = ((None, [Daily (daily_stats df_temp)]), [RawFrame df, DatedFrame df_temp])"
  by (simp add: run_page2_def dual_axis_line_chart_def df_copy_def alloc_def assign_dated_def)

lemma filter_df_filtered:
  "filter P (df_filtered low high df)
     = filter (\<lambda>r. P r \<and> (\<exists>d. ride_duration_min r = Some d \<and> low \<le> d \<and> d \<le> high)) df"
  unfolding df_filtered_filter filter_filter
  by (rule filter_cong) (auto split: option.splits)

text \<open>
  C3 fails for the Part 2 dashboard, whose daily trend page (lines 49-57) has no filter:
  of three rides of 5, 50 and 130 minutes on one day it counts 3 and averages 185 / 3.
\<close>

theorem C3_part2_unfiltered_counterexample:
  "rendered (fst (app_part2 sample_parse (Some sample_table) DualAxisLineChart \<lparr>cache = None, reads = 0\<rparr>))
     = [Daily [\<lparr>group_date = 18993, daily_rides = 3, avg_duration = Some (185 / 3)\<rparr>]]
   \<and> map_sum id (map ride_duration_min) (derive_dated sample_parse sample_table)
     = Inr [Some 5, Some 50, Some 130]"
proof -
  have h: "derive_dated sample_parse sample_table = Inr (map (dated_row sample_parse) sample_table)"
    using sample_table_parses by (rule derive_dated_ok)
  have s: "daily_stats (map (dated_row sample_parse) sample_table)
      = [\<lparr>group_date = 18993, daily_rides = 3, avg_duration = Some (185 / 3)\<rparr>]"
    using sample_durations
    by (simp add: daily_stats_def groupby_date_def series_count_def series_mean_def sample_table_def)
  have "app_part2 sample_parse (Some sample_table) DualAxisLineChart \<lparr>cache = None, reads = 0\<rparr>
      = (\<lparr>uncaught = None, rendered = [Daily (daily_stats (map (dated_row sample_parse) sample_table))],
          objects = [RawFrame sample_table, DatedFrame (map (dated_row sample_parse) sample_table)]\<rparr>,
         \<lparr>cache = Some (sample_table, []), reads = 1\<rparr>)"
    using dual_axis_page [OF h]
    by (simp add: app_part2_def cache_data_def load_data_part2_def read_csv_def alloc_def)
  then show ?thesis
    using sample_durations by (simp add: s h)
qed

text \<open>
  C3, amended. When the timestamps of the table parse, the daily trend page of the final
  dashboard renders the daily aggregate of the rows whose duration \<open>d\<close> satisfies
  \<open>1 \<le> d \<le> 120\<close>: a date has an entry only if such a row has it, the ride count of an
  entry is the number of such rows of the date that have a \<^verbatim>\<open>ride_id\<close>, and its mean
  duration is the mean of the durations of such rows of the date. The daily trend page of
  the Part 2 dashboard applies no duration filter: it renders the daily aggregate of the
  whole derived table, in which a date has an entry if any row has it, the ride count of
  an entry is the number of rows of the date that have a \<^verbatim>\<open>ride_id\<close>, and its mean
  duration is the mean of the durations of the rows of the date that are not NaN,
  whatever the durations are.
\<close>

theorem C3_trend_window:
  assumes "derive_dated parse df = Inr df_temp"
  shows "(\<exists>stats. fst (run_page parse DailyTrends 0 [RawFrame df]) = (None, [Daily stats])
          \<and> set (map group_date stats)
              = {k. \<exists>r \<in> set df_temp. date r = Some k
                      \<and> (\<exists>d. ride_duration_min r = Some d \<and> 1 \<le> d \<and> d \<le> 120)}
          \<and> (\<forall>e \<in> set stats.
                daily_rides e
                  = length (filter (\<lambda>r. (date r = Some (group_date e) \<and> ride_id r \<noteq> None)
                      \<and> (\<exists>d. ride_duration_min r = Some d \<and> 1 \<le> d \<and> d \<le> 120)) df_temp)
              \<and> avg_duration e
                  = series_mean (map ride_duration_min
                      (filter (\<lambda>r. date r = Some (group_date e)
                         \<and> (\<exists>d. ride_duration_min r = Some d \<and> 1 \<le> d \<and> d \<le> 120)) df_temp))))
     \<and> (\<exists>stats. fst (run_page2 parse DualAxisLineChart 0 [RawFrame df]) = (None, [Daily stats])
          \<and> set (map group_date stats) = {k. \<exists>r \<in> set df_temp. date r = Some k}
          \<and> (\<forall>e \<in> set stats.
                daily_rides e
                  = length (filter (\<lambda>r. date r = Some (group_date e) \<and> ride_id r \<noteq> None) df_temp)
              \<and> avg_duration e
                  = series_mean (map ride_duration_min
                      (filter (\<lambda>r. date r = Some (group_date e)) df_temp))))"
proof (intro conjI)
  let ?t = "df_filtered 1 120 df_temp"
  have p: "fst (run_page parse DailyTrends 0 [RawFrame df]) = (None, [Daily (daily_stats ?t)])"
    using assms by (simp add: daily_trends_page)
  have k: "set (map group_date (daily_stats ?t))
      = {k. \<exists>r \<in> set df_temp. date r = Some k
              \<and> (\<exists>d. ride_duration_min r = Some d \<and> 1 \<le> d \<and> d \<le> 120)}"
    unfolding map_group_date group_keys_set by (auto simp: in_df_filtered)
  have e: "\<forall>e \<in> set (daily_stats ?t).
      daily_rides e
        = length (filter (\<lambda>r. (date r = Some (group_date e) \<and> ride_id r \<noteq> None)
            \<and> (\<exists>d. ride_duration_min r = Some d \<and> 1 \<le> d \<and> d \<le> 120)) df_temp)
      \<and> avg_duration e
        = series_mean (map ride_duration_min
            (filter (\<lambda>r. date r = Some (group_date e)
               \<and> (\<exists>d. ride_duration_min r = Some d \<and> 1 \<le> d \<and> d \<le> 120)) df_temp))"
    by (simp add: in_daily_stats filter_df_filtered)
  show "\<exists>stats. fst (run_page parse DailyTrends 0 [RawFrame df]) = (None, [Daily stats])
          \<and> set (map group_date stats)
              = {k. \<exists>r \<in> set df_temp. date r = Some k
                      \<and> (\<exists>d. ride_duration_min r = Some d \<and> 1 \<le> d \<and> d \<le> 120)}
          \<and> (\<forall>e \<in> set stats.
                daily_rides e
                  = length (filter (\<lambda>r. (date r = Some (group_date e) \<and> ride_id r \<noteq> None)
                      \<and> (\<exists>d. ride_duration_min r = Some d \<and> 1 \<le> d \<and> d \<le> 120)) df_temp)
              \<and> avg_duration e
                  = series_mean (map ride_duration_min
                      (filter (\<lambda>r. date r = Some (group_date e)
                         \<and> (\<exists>d. ride_duration_min r = Some d \<and> 1 \<le> d \<and> d \<le> 120)) df_temp)))"
    using p k e by blast
  have p2: "fst (run_page2 parse DualAxisLineChart 0 [RawFrame df]) = (None, [Daily (daily_stats df_temp)])"
    using assms by (simp add: dual_axis_page)
  have k2: "set (map group_date (daily_stats df_temp)) = {k. \<exists>r \<in> set df_temp. date r = Some k}"
    unfolding map_group_date by (rule group_keys_set)
  have e2: "\<forall>e \<in> set (daily_stats df_temp).
      daily_rides e
        = length (filter (\<lambda>r. date r = Some (group_date e) \<and> ride_id r \<noteq> None) df_temp)
      \<and> avg_duration e
        = series_mean (map ride_duration_min (filter (\<lambda>r. date r = Some (group_date e)) df_temp))"
    by (simp add: in_daily_stats)
  show "\<exists>stats. fst (run_page2 parse DualAxisLineChart 0 [RawFrame df]) = (None, [Daily stats])
          \<and> set (map group_date stats) = {k. \<exists>r \<in> set df_temp. date r = Some k}
          \<and> (\<forall>e \<in> set stats.
                daily_rides e
                  = length (filter (\<lambda>r. date r = Some (group_date e) \<and> ride_id r \<noteq> None) df_temp)
              \<and> avg_duration e
                  = series_mean (map ride_duration_min
                      (filter (\<lambda>r. date r = Some (group_date e)) df_temp)))"
    using p2 k2 e2 by blast
qed

theorem C3_trend_window_witness:
  "fst (run_page sample_parse DailyTrends 0 [RawFrame sample_table])
     = (None, [Daily [\<lparr>group_date = 18993, daily_rides = 2, avg_duration = Some (55 / 2)\<rparr>]])
   \<and> fst (run_page2 sample_parse DualAxisLineChart 0 [RawFrame sample_table])
     = (None, [Daily [\<lparr>group_date = 18993, daily_rides = 3, avg_duration = Some (185 / 3)\<rparr>]])"
proof -
  have h: "derive_dated sample_parse sample_table = Inr (map (dated_row sample_parse) sample_table)"
    using sample_table_parses by (rule derive_dated_ok)
  have s: "daily_stats (df_filtered 1 120 (map (dated_row sample_parse) sample_table))
      = [\<lparr>group_date = 18993, daily_rides = 2, avg_duration = Some (55 / 2)\<rparr>]"
    using sample_durations
    by (simp add: daily_stats_def groupby_date_def series_count_def series_mean_def sample_table_def
        df_filtered_filter)
  have s2: "daily_stats (map (dated_row sample_parse) sample_table)
      = [\<lparr>group_date = 18993, daily_rides = 3, avg_duration = Some (185 / 3)\<rparr>]"
    using sample_durations
    by (simp add: daily_stats_def groupby_date_def series_count_def series_mean_def sample_table_def)
  show ?thesis
    using C3_trend_window [OF h] daily_trends_page [OF h] dual_axis_page [OF h]
    by (simp add: s s2)
qed

section \<open>The store and the cache\<close>

text \<open>
  A page changes no object that existed when it started: its column assignments go to
  the object that \<^verbatim>\<open>df.copy()\<close> made.
\<close>

lemma assign_duration_frame:
  "assign_duration parse a h = (res, h') \<Longrightarrow> length h' = length h \<and> (\<forall>b. b \<noteq> a \<longrightarrow> h' ! b = h ! b)"
  by (auto simp: assign_duration_def split: frame.splits sum.splits)

lemma assign_dated_frame:
  "assign_dated parse a h = (res, h') \<Longrightarrow> length h' = length h \<and> (\<forall>b. b \<noteq> a \<longrightarrow> h' ! b = h ! b)"
  by (auto simp: assign_dated_def split: frame.splits sum.splits)

lemma df_copy_frame:
  "df_copy a h = (c, h') \<Longrightarrow> c = length h \<and> length h' = Suc (length h) \<and> (\<forall>b < length h. h' ! b = h ! b)"
  by (auto simp: df_copy_def alloc_def nth_append)

lemma copy_then_assign_frame:
  assumes "df_copy a h = (c, h1)" and "f c h1 = (res, h2)"
    and "\<And>res h'. f c h1 = (res, h') \<Longrightarrow> length h' = length h1 \<and> (\<forall>b. b \<noteq> c \<longrightarrow> h' ! b = h1 ! b)"
  shows "length h \<le> length h2 \<and> (\<forall>b < length h. h2 ! b = h ! b)"
  using df_copy_frame [OF assms(1)] assms(3) [OF assms(2)] by auto

lemma daily_trends_frame:
  "length h \<le> length (snd (daily_trends parse a h)) \<and> (\<forall>b < length h. snd (daily_trends parse a h) ! b = h ! b)"
proof -
  obtain c h1 where c: "df_copy a h = (c, h1)" by (cases "df_copy a h")
  obtain res h2 where r: "assign_dated parse c h1 = (res, h2)" by (cases "assign_dated parse c h1")
  have "length h \<le> length h2 \<and> (\<forall>b < length h. h2 ! b = h ! b)"
    using c r by (rule copy_then_assign_frame) (rule assign_dated_frame)
  moreover have "snd (daily_trends parse a h) = h2"
    by (simp add: daily_trends_def c r split: sum.splits)
  ultimately show ?thesis by simp
qed

lemma dual_axis_frame:
  "length h \<le> length (snd (dual_axis_line_chart parse a h))
   \<and> (\<forall>b < length h. snd (dual_axis_line_chart parse a h) ! b = h ! b)"
proof -
  obtain c h1 where c: "df_copy a h = (c, h1)" by (cases "df_copy a h")
  obtain res h2 where r: "assign_dated parse c h1 = (res, h2)" by (cases "assign_dated parse c h1")
  have "length h \<le> length h2 \<and> (\<forall>b < length h. h2 ! b = h ! b)"
    using c r by (rule copy_then_assign_frame) (rule assign_dated_frame)
  moreover have "snd (dual_axis_line_chart parse a h) = h2"
    by (simp add: dual_axis_line_chart_def c r split: sum.splits)
  ultimately show ?thesis by simp
qed

lemma user_analysis_frame:
  "length h \<le> length (snd (user_analysis parse a h))
   \<and> (\<forall>b < length h. snd (user_analysis parse a h) ! b = h ! b)"
proof -
  obtain c h1 where c: "df_copy a h = (c, h1)" by (cases "df_copy a h")
  obtain res h2 where r: "assign_duration parse c h1 = (res, h2)" by (cases "assign_duration parse c h1")
  have "length h \<le> length h2 \<and> (\<forall>b < length h. h2 ! b = h ! b)"
    using c r by (rule copy_then_assign_frame) (rule assign_duration_frame)
  moreover have "snd (user_analysis parse a h) = h2 \<or> snd (user_analysis parse a h) = h"
    by (simp add: user_analysis_def c r Let_def split: sum.splits)
  ultimately show ?thesis by auto
qed

lemma additional_insights_frame:
  "length h \<le> length (snd (additional_insights parse a h))
   \<and> (\<forall>b < length h. snd (additional_insights parse a h) ! b = h ! b)"
proof -
  obtain c h1 where c: "df_copy a h = (c, h1)" by (cases "df_copy a h")
  obtain res h2 where r: "assign_duration parse c h1 = (res, h2)" by (cases "assign_duration parse c h1")
  have "length h \<le> length h2 \<and> (\<forall>b < length h. h2 ! b = h ! b)"
    using c r by (rule copy_then_assign_frame) (rule assign_duration_frame)
  moreover have "snd (additional_insights parse a h) = h2 \<or> snd (additional_insights parse a h) = h"
    by (simp add: additional_insights_def c r Let_def split: sum.splits)
  ultimately show ?thesis by auto
qed

lemma run_page_frame:
  "length h \<le> length (snd (run_page parse p a h)) \<and> (\<forall>b < length h. snd (run_page parse p a h) ! b = h ! b)"
proof (cases p)
  case DailyTrends
  then show ?thesis using daily_trends_frame [of h parse a] by (simp add: run_page_def)
next
  case UserAnalysis
  then show ?thesis using user_analysis_frame [of h parse a] by (simp add: run_page_def)
qed (simp_all add: run_page_def intro_def popular_stations_def split: sum.splits)

lemma run_page2_frame:
  "length h \<le> length (snd (run_page2 parse p a h)) \<and> (\<forall>b < length h. snd (run_page2 parse p a h) ! b = h ! b)"
proof (cases p)
  case DualAxisLineChart
  then show ?thesis using dual_axis_frame [of h parse a] by (simp add: run_page2_def)
next
  case AdditionalInsights
  then show ?thesis using additional_insights_frame [of h parse a] by (simp add: run_page2_def)
qed (simp_all add: run_page2_def intro2_def most_popular_stations_def kepler_map_def split: sum.splits)


lemma app_fixed_cached:
  assumes "cache s = Some (Some t, els)"
  shows "snd (app_fixed parse file p s) = s"
    and "objects (fst (app_fixed parse file p s)) = snd (run_page parse p 0 [RawFrame t])"
    and "reads (snd (app_fixed parse file p s)) = reads s"
  using assms
  by (simp_all add: app_fixed_def cache_data_def alloc_def split: prod.splits)

lemma app_part2_cached:
  assumes "cache s = Some (t, els)"
  shows "snd (app_part2 parse file p s) = s"
    and "objects (fst (app_part2 parse file p s)) = snd (run_page2 parse p 0 [RawFrame t])"
  using assms
  by (simp_all add: app_part2_def cache_data_def alloc_def split: prod.splits)

lemma app_fixed_fresh:
  assumes "cache s = None"
  shows "snd (app_fixed parse (Some t) p s) = s\<lparr>reads := reads s + 1, cache := Some (Some t, [])\<rparr>"
    and "objects (fst (app_fixed parse (Some t) p s)) = snd (run_page parse p 0 [RawFrame t])"
  using assms
  by (simp_all add: app_fixed_def cache_data_def load_data_fixed_def read_csv_def alloc_def
      split: prod.splits)

lemma app_part2_fresh:
  assumes "cache s = None"
  shows "snd (app_part2 parse (Some t) p s) = s\<lparr>reads := reads s + 1, cache := Some (t, [])\<rparr>"
    and "objects (fst (app_part2 parse (Some t) p s)) = snd (run_page2 parse p 0 [RawFrame t])"
  using assms
  by (simp_all add: app_part2_def cache_data_def load_data_part2_def read_csv_def alloc_def
      split: prod.splits)

lemma loaded_object_fixed: "snd (run_page parse p 0 [RawFrame t]) ! 0 = RawFrame t"
  using run_page_frame [of "[RawFrame t]" parse p 0] by simp

lemma loaded_object_part2: "snd (run_page2 parse p 0 [RawFrame t]) ! 0 = RawFrame t"
  using run_page2_frame [of "[RawFrame t]" parse p 0] by simp

lemma runs_fixed_cached:
  "cache s = Some (Some t, els) \<Longrightarrow>
   (\<forall>r \<in> set (fst (runs_fixed parse ps s)). objects r ! 0 = RawFrame t)
   \<and> snd (runs_fixed parse ps s) = s"
proof (induction ps)
  case Nil
  then show ?case by simp
next
  case (Cons fp ps)
  obtain fl p where fp: "fp = (fl, p)" by (cases fp)
  obtain r s' where a: "app_fixed parse fl p s = (r, s')" by (cases "app_fixed parse fl p s")
  have s': "s' = s" and r: "objects r ! 0 = RawFrame t"
    using app_fixed_cached [OF Cons.prems, of parse fl p] a
    by (simp_all add: loaded_object_fixed)
  show ?case
    using Cons.IH [OF Cons.prems] r
    by (auto simp: fp a s' split: prod.splits)
qed

lemma runs_part2_cached:
  "cache s = Some (t, els) \<Longrightarrow>
   (\<forall>r \<in> set (fst (runs_part2 parse ps s)). objects r ! 0 = RawFrame t)
   \<and> snd (runs_part2 parse ps s) = s"
proof (induction ps)
  case Nil
  then show ?case by simp
next
  case (Cons fp ps)
  obtain fl p where fp: "fp = (fl, p)" by (cases fp)
  obtain r s' where a: "app_part2 parse fl p s = (r, s')" by (cases "app_part2 parse fl p s")
  have s': "s' = s" and r: "objects r ! 0 = RawFrame t"
    using app_part2_cached [OF Cons.prems, of parse fl p] a
    by (simp_all add: loaded_object_part2)
  show ?case
    using Cons.IH [OF Cons.prems] r
    by (auto simp: fp a s' split: prod.splits)
qed

lemma length_runs_fixed: "length (fst (runs_fixed parse ps s)) = length ps"
proof (induction ps arbitrary: s)
  case Nil
  then show ?case by simp
next
  case (Cons fp ps)
  obtain fl p where fp: "fp = (fl, p)" by (cases fp)
  obtain r s' where a: "app_fixed parse fl p s = (r, s')" by (cases "app_fixed parse fl p s")
  obtain rs s'' where b: "runs_fixed parse ps s' = (rs, s'')" by (cases "runs_fixed parse ps s'")
  show ?case
    using Cons.IH [of s'] by (simp add: fp a b)
qed

lemma length_runs_part2: "length (fst (runs_part2 parse ps s)) = length ps"
proof (induction ps arbitrary: s)
  case Nil
  then show ?case by simp
next
  case (Cons fp ps)
  obtain fl p where fp: "fp = (fl, p)" by (cases fp)
  obtain r s' where a: "app_part2 parse fl p s = (r, s')" by (cases "app_part2 parse fl p s")
  obtain rs s'' where b: "runs_part2 parse ps s' = (rs, s'')" by (cases "runs_part2 parse ps s'")
  show ?case
    using Cons.IH [of s'] by (simp add: fp a b)
qed

lemma map_const: "\<forall>x \<in> set xs. f x = c \<Longrightarrow> map f xs = replicate (length xs) c"
  by (induction xs) simp_all

text \<open>
  C10. Every page of either dashboard leaves every object that existed before it as it
  was, so also the loaded table; a run that loads the table \<open>t\<close> from the file ends with
  \<open>t\<close> in the object of \<^verbatim>\<open>df\<close> and in the memo; and in every sequence of runs on a
  session whose memo holds \<open>t\<close>, whatever the pages selected and whatever the file has
  become, each run ends with \<open>t\<close> in the object of \<^verbatim>\<open>df\<close> and the session is unchanged.
  This holds also for a page that ends with an exception.
\<close>

theorem C10_raw_table_unchanged:
  "(\<forall>b < length h. snd (run_page parse p a h) ! b = h ! b)
   \<and> (\<forall>b < length h. snd (run_page2 parse p2 a h) ! b = h ! b)
   \<and> (cache s = None \<longrightarrow>
        objects (fst (app_fixed parse (Some t) p s)) ! 0 = RawFrame t
        \<and> cache (snd (app_fixed parse (Some t) p s)) = Some (Some t, []))
   \<and> (cache s2 = None \<longrightarrow>
        objects (fst (app_part2 parse (Some t) p2 s2)) ! 0 = RawFrame t
        \<and> cache (snd (app_part2 parse (Some t) p2 s2)) = Some (t, []))
   \<and> (cache s = Some (Some t, els) \<longrightarrow>
        (\<forall>r \<in> set (fst (runs_fixed parse ps s)). objects r ! 0 = RawFrame t)
        \<and> snd (runs_fixed parse ps s) = s)
   \<and> (cache s2 = Some (t, els) \<longrightarrow>
        (\<forall>r \<in> set (fst (runs_part2 parse ps2 s2)). objects r ! 0 = RawFrame t)
        \<and> snd (runs_part2 parse ps2 s2) = s2)"
proof (intro conjI impI)
  show "\<forall>b < length h. snd (run_page parse p a h) ! b = h ! b"
    using run_page_frame [of h parse p a] by simp
  show "\<forall>b < length h. snd (run_page2 parse p2 a h) ! b = h ! b"
    using run_page2_frame [of h parse p2 a] by simp
next
  assume "cache s = None"
  then show "objects (fst (app_fixed parse (Some t) p s)) ! 0 = RawFrame t"
    and "cache (snd (app_fixed parse (Some t) p s)) = Some (Some t, [])"
    by (simp_all add: app_fixed_fresh loaded_object_fixed)
next
  assume "cache s2 = None"
  then show "objects (fst (app_part2 parse (Some t) p2 s2)) ! 0 = RawFrame t"
    and "cache (snd (app_part2 parse (Some t) p2 s2)) = Some (t, [])"
    by (simp_all add: app_part2_fresh loaded_object_part2)
next
  assume c: "cache s = Some (Some t, els)"
  show "\<forall>r \<in> set (fst (runs_fixed parse ps s)). objects r ! 0 = RawFrame t"
    and "snd (runs_fixed parse ps s) = s"
    using runs_fixed_cached [OF c, of parse ps] by simp_all
next
  assume c: "cache s2 = Some (t, els)"
  show "\<forall>r \<in> set (fst (runs_part2 parse ps2 s2)). objects r ! 0 = RawFrame t"
    and "snd (runs_part2 parse ps2 s2) = s2"
    using runs_part2_cached [OF c, of parse ps2] by simp_all
qed

theorem C10_raw_table_unchanged_witness:
  "map (\<lambda>r. objects r ! 0)
     (fst (runs_fixed sample_parse [(None, DailyTrends), (Some [], UserAnalysis)]
        \<lparr>cache = Some (Some sample_table, []), reads = 1\<rparr>))
     = [RawFrame sample_table, RawFrame sample_table]
   \<and> snd (runs_fixed sample_parse [(None, DailyTrends), (Some [], UserAnalysis)]
        \<lparr>cache = Some (Some sample_table, []), reads = 1\<rparr>)
     = \<lparr>cache = Some (Some sample_table, []), reads = 1\<rparr>
   \<and> map (\<lambda>r. objects r ! 0)
     (fst (runs_part2 sample_parse [(None, DualAxisLineChart), (Some [], AdditionalInsights)]
        \<lparr>cache = Some (sample_table, []), reads = 1\<rparr>))
     = [RawFrame sample_table, RawFrame sample_table]"
proof -
  let ?s = "\<lparr>cache = Some (Some sample_table, []), reads = 1\<rparr> :: raw_table option session"
  let ?s2 = "\<lparr>cache = Some (sample_table, []), reads = 1\<rparr> :: raw_table session"
  let ?ps = "[(None, DailyTrends), (Some [], UserAnalysis)]"
  let ?ps2 = "[(None, DualAxisLineChart), (Some [], AdditionalInsights)]"
  have c: "cache ?s = Some (Some sample_table, [])" "cache ?s2 = Some (sample_table, [])"
    by simp_all
  note t = C10_raw_table_unchanged [of "[]" sample_parse Intro 0 Intro2 ?s sample_table ?s2 "[]" ?ps ?ps2]
  have a: "\<forall>r \<in> set (fst (runs_fixed sample_parse ?ps ?s)). objects r ! 0 = RawFrame sample_table"
    and b: "snd (runs_fixed sample_parse ?ps ?s) = ?s"
    and a2: "\<forall>r \<in> set (fst (runs_part2 sample_parse ?ps2 ?s2)). objects r ! 0 = RawFrame sample_table"
    using t c by blast+
  have m: "map (\<lambda>r. objects r ! 0) (fst (runs_fixed sample_parse ?ps ?s))
      = replicate (length (fst (runs_fixed sample_parse ?ps ?s))) (RawFrame sample_table)"
    by (rule map_const [OF a])
  have m2: "map (\<lambda>r. objects r ! 0) (fst (runs_part2 sample_parse ?ps2 ?s2))
      = replicate (length (fst (runs_part2 sample_parse ?ps2 ?s2))) (RawFrame sample_table)"
    by (rule map_const [OF a2])
  have l: "length (fst (runs_fixed sample_parse ?ps ?s)) = Suc (Suc 0)"
    "length (fst (runs_part2 sample_parse ?ps2 ?s2)) = Suc (Suc 0)"
    unfolding length_runs_fixed length_runs_part2 by simp_all
  show ?thesis
    unfolding m m2 l b by simp
qed

section \<open>The loader\<close>




end
